theory Spec2Isabelle
  imports Main
begin

section \<open>Rendered content nodes and their flattening (Code.tsx)\<close>

text \<open>
  The values \<open>processContent\<close> can be handed at run time. The declared parameter type is
  \<open>React.ReactNode\<close>, but the function probes shapes outside that type (\<open>value\<close>, \<open>raw\<close>,
  a cast to \<open>any\<close>), so the model is the JavaScript value itself:
  \<^item> \<open>Undefined\<close>, \<open>Null\<close>;
  \<^item> \<open>Prim s\<close>: a primitive that is neither a string nor nullish (number, boolean,
    bigint, symbol), given by its default string form \<open>s = String(v)\<close>; the function only
    ever applies \<open>String\<close> to such a value;
  \<^item> \<open>Str s\<close>: a string;
  \<^item> \<open>Arr xs\<close>: an array (no holes);
  \<^item> \<open>Obj fs\<close>: a plain object with the own data properties \<open>fs\<close> (key and value; the
    first binding of a key counts), none of which shadows \<open>toString\<close> or \<open>valueOf\<close>;
  \<^item> \<open>Element ps\<close>: a value for which \<open>React.isValidElement\<close> holds, with its props
    object \<open>ps\<close> (React gives every element a props object).
\<close>

datatype jsval =
    Undefined
  | Null
  | Prim string
  | Str string
  | Arr "jsval list"
  | Obj "(string \<times> jsval) list"
  | Element "(string \<times> jsval) list"

datatype js_error = TypeError

text \<open>\<open>k in o\<close> for an object with the own properties \<open>fs\<close>, and the read \<open>o.k\<close>
  (a missing property reads as \<open>undefined\<close>).\<close>

definition has_key :: "string \<Rightarrow> (string \<times> jsval) list \<Rightarrow> bool" where
  "has_key k fs = (map_of fs k \<noteq> None)"

definition field :: "string \<Rightarrow> (string \<times> jsval) list \<Rightarrow> jsval" where
  "field k fs = (case map_of fs k of None \<Rightarrow> Undefined | Some v \<Rightarrow> v)"

text \<open>\<open>xs.join(sep)\<close> on an array of strings.\<close>

fun join_strings :: "string \<Rightarrow> string list \<Rightarrow> string" where
  "join_strings sep [] = []"
| "join_strings sep [x] = x"
| "join_strings sep (x # y # ys) = x @ sep @ join_strings sep (y # ys)"

text \<open>\<open>String(v)\<close>: the default string form. An array joins the string forms of its
  elements with a comma, an \<open>undefined\<close> or \<open>null\<close> element giving the empty string; a
  plain object (and a React element, which is one) gives \<open>[object Object]\<close>.\<close>

fun String_js :: "jsval \<Rightarrow> string" where
  "String_js Undefined = ''undefined''"
| "String_js Null = ''null''"
| "String_js (Prim s) = s"
| "String_js (Str s) = s"
| "String_js (Arr xs) =
     join_strings '',''
       (map (\<lambda>x. if x = Undefined \<or> x = Null then [] else String_js x) xs)"
| "String_js (Obj fs) = ''[object Object]''"
| "String_js (Element ps) = ''[object Object]''"

text \<open>\<open>'children' in v\<close>: a \<open>TypeError\<close> unless \<open>v\<close> is an object. Arrays and React
  elements are objects without a \<open>children\<close> property of their own.\<close>

fun children_in :: "jsval \<Rightarrow> js_error + bool" where
  "children_in (Obj fs) = Inr (has_key ''children'' fs)"
| "children_in (Arr xs) = Inr False"
| "children_in (Element ps) = Inr False"
| "children_in v = Inl TypeError"

text \<open>\<open>v.children\<close> for an object \<open>v\<close> on which \<open>'children' in v\<close> holds.\<close>

fun children_of :: "jsval \<Rightarrow> jsval" where
  "children_of (Obj fs) = field ''children'' fs"
| "children_of v = Undefined"

text \<open>\<open>children.map(child => processContent(child)).join('')\<close>: the calls run left to
  right and the first one that throws ends the evaluation.\<close>

fun join_results :: "(js_error + string) list \<Rightarrow> js_error + string" where
  "join_results [] = Inr []"
| "join_results (Inl e # rs) = Inl e"
| "join_results (Inr s # rs) =
     (case join_results rs of Inl e \<Rightarrow> Inl e | Inr t \<Rightarrow> Inr (s @ t))"

lemma size_map_of:
  "map_of fs k = Some v \<Longrightarrow> size v < Suc (size_list (size_prod (\<lambda>_. 0) size) fs)"
  by (induction fs) (auto split: if_splits)

lemma size_field: "size (field k fs) < Suc (size_list (size_prod (\<lambda>_. 0) size) fs)"
  by (auto simp: field_def split: option.splits dest: size_map_of)

text \<open>
  \<open>processContent\<close>, branch by branch as in the source (Code.tsx, lines 32 to 54):
  the array test, the React element test, then for a non-null object the probes for
  \<open>value\<close>, \<open>raw\<close> and \<open>props\<close> with \<open>children\<close>, and last \<open>String(children ?? '')\<close>.
\<close>

function processContent :: "jsval \<Rightarrow> js_error + string" where
  "processContent (Arr xs) = join_results (map processContent xs)"
| "processContent (Element ps) = processContent (field ''children'' ps)"
| "processContent (Obj fs) =
     (if has_key ''value'' fs then Inr (String_js (field ''value'' fs))
      else if has_key ''raw'' fs then Inr (String_js (field ''raw'' fs))
      else if has_key ''props'' fs then
        (case children_in (field ''props'' fs) of
           Inl e \<Rightarrow> Inl e
         | Inr True \<Rightarrow> processContent (children_of (field ''props'' fs))
         | Inr False \<Rightarrow> Inr (String_js (Obj fs)))
      else Inr (String_js (Obj fs)))"
| "processContent Undefined = Inr (String_js (Str []))"
| "processContent Null = Inr (String_js (Str []))"
| "processContent (Prim s) = Inr (String_js (Prim s))"
| "processContent (Str s) = Inr (String_js (Str s))"
  by pat_completeness auto
termination
proof (relation "measure size", goal_cases)
  case 1
  show ?case by simp
next
  case (2 xs x)
  then show ?case by (induction xs) auto
next
  case (3 ps)
  show ?case using size_field [of "''children''" ps] by simp
next
  case (4 fs b)
  then obtain gs where g: "field ''props'' fs = Obj gs"
    by (cases "field ''props'' fs") auto
  have "size (field ''children'' gs) < Suc (size_list (size_prod (\<lambda>_. 0) size) gs)"
    by (rule size_field)
  also have "\<dots> = size (field ''props'' fs)"
    by (simp add: g)
  also have "\<dots> < Suc (size_list (size_prod (\<lambda>_. 0) size) fs)"
    by (rule size_field)
  finally show ?case
    by (simp add: g)
qed

text \<open>
  The flattening as a list of rules, to compare \<open>processContent\<close> with: a sequence is the
  concatenation of its flattened elements; a React element is flattened through its
  \<open>props.children\<close> (absent children read as \<open>undefined\<close>, which flattens to the empty
  string); any other object gives the string form of its \<open>value\<close> if it has one, else of
  its \<open>raw\<close> if it has one, else is flattened through \<open>props.children\<close> if its \<open>props\<close> is
  an object with a \<open>children\<close> property, else gives its default string form; a string or
  other primitive gives its string form, \<open>undefined\<close> and \<open>null\<close> the empty string.
\<close>

lemma size_props_children:
  assumes "field ''props'' fs = Obj gs"
  shows "size (field ''children'' gs) < size (Obj fs)"
proof -
  have "size (field ''children'' gs) < Suc (size_list (size_prod (\<lambda>_. 0) size) gs)"
    by (rule size_field)
  also have "\<dots> = size (field ''props'' fs)"
    by (simp add: assms)
  also have "\<dots> < Suc (size_list (size_prod (\<lambda>_. 0) size) fs)"
    by (rule size_field)
  finally show ?thesis by simp
qed

function flatten :: "jsval \<Rightarrow> string" where
  "flatten (Arr xs) = concat (map flatten xs)"
| "flatten (Element ps) = flatten (field ''children'' ps)"
| "flatten (Obj fs) =
     (if has_key ''value'' fs then String_js (field ''value'' fs)
      else if has_key ''raw'' fs then String_js (field ''raw'' fs)
      else (case field ''props'' fs of
              Obj gs \<Rightarrow>
                (if has_key ''children'' gs then flatten (field ''children'' gs)
                 else ''[object Object]'')
            | _ \<Rightarrow> ''[object Object]''))"
| "flatten Undefined = []"
| "flatten Null = []"
| "flatten (Prim s) = s"
| "flatten (Str s) = s"
  by pat_completeness auto
termination
proof (relation "measure size", goal_cases)
  case 1
  show ?case by simp
next
  case (2 xs x)
  then show ?case by (induction xs) auto
next
  case (3 ps)
  show ?case using size_field [of "''children''" ps] by simp
next
  case (4 fs gs)
  then show ?case using size_props_children [of fs gs] by simp
qed

text \<open>
  The inputs on which the probe \<open>'children' in props\<close> cannot throw: wherever the
  flattening reaches an object without \<open>value\<close> and \<open>raw\<close> but with a \<open>props\<close> property,
  that property holds an object (a plain object, an array or an element).
\<close>

function props_ok :: "jsval \<Rightarrow> bool" where
  "props_ok (Arr xs) = list_all props_ok xs"
| "props_ok (Element ps) = props_ok (field ''children'' ps)"
| "props_ok (Obj fs) =
     (if has_key ''value'' fs \<or> has_key ''raw'' fs \<or> \<not> has_key ''props'' fs then True
      else (case field ''props'' fs of
              Obj gs \<Rightarrow>
                (if has_key ''children'' gs then props_ok (field ''children'' gs) else True)
            | Arr ys \<Rightarrow> True
            | Element qs \<Rightarrow> True
            | _ \<Rightarrow> False))"
| "props_ok Undefined = True"
| "props_ok Null = True"
| "props_ok (Prim s) = True"
| "props_ok (Str s) = True"
  by pat_completeness auto
termination
proof (relation "measure size", goal_cases)
  case 1
  show ?case by simp
next
  case (2 xs x)
  then show ?case by (induction xs) auto
next
  case (3 ps)
  show ?case using size_field [of "''children''" ps] by simp
next
  case (4 fs gs)
  then show ?case using size_props_children [of fs gs] by simp
qed

subsection \<open>The language tag and the displayed file name (Code.tsx, MonacoEditor.tsx)\<close>

text \<open>The class \<open>\w\<close> of a regular expression without the unicode flag.\<close>

definition word_char :: "char \<Rightarrow> bool" where
  "word_char c =
     (c \<in> set ''abcdefghijklmnopqrstuvwxyzABCDEFGHIJKLMNOPQRSTUVWXYZ0123456789_'')"

definition strip_prefix :: "string \<Rightarrow> string \<Rightarrow> string option" where
  "strip_prefix p s = (if take (length p) s = p then Some (drop (length p) s) else None)"

text \<open>\<open>/language-(\w+)/.exec(s)?.[1]\<close>: the leftmost position where \<open>language-\<close> is
  followed by a word character; the group is the longest run of word characters there.\<close>

fun language_match :: "string \<Rightarrow> string option" where
  "language_match [] = None"
| "language_match (c # cs) =
     (case strip_prefix ''language-'' (c # cs) of
        Some rest \<Rightarrow>
          (if takeWhile word_char rest \<noteq> [] then Some (takeWhile word_char rest)
           else language_match cs)
      | None \<Rightarrow> language_match cs)"

text \<open>\<open>const lang = match?.[1] ?? undefined\<close>, from \<open>className ?? ''\<close>.\<close>

definition lang_of :: "string option \<Rightarrow> string option" where
  "lang_of className = language_match (case className of None \<Rightarrow> [] | Some s \<Rightarrow> s)"

text \<open>Truthiness of an optional string: \<open>undefined\<close> and the empty string are falsy.\<close>

definition truthy :: "string option \<Rightarrow> bool" where
  "truthy x = (case x of None \<Rightarrow> False | Some s \<Rightarrow> s \<noteq> [])"

text \<open>\<open>filename || `untitled${lang ? `.${lang}` : ''}`\<close> (Code.tsx, line 57).\<close>

definition displayFilename :: "string option \<Rightarrow> string option \<Rightarrow> string" where
  "displayFilename filename lang =
     (if truthy filename then the filename
      else ''untitled'' @ (if truthy lang then ''.'' @ the lang else []))"

text \<open>The props \<open>code\<close> hands to \<open>MonacoEditor\<close>, and what the component returns: the
  inline branch renders a plain \<open>code\<close> element and no editor; the block branch flattens
  the children first, so an exception of \<open>processContent\<close> is an exception of the render.\<close>

record monaco_props =
  p_content :: string
  p_language :: "string option"
  p_readOnly :: "bool option"
  p_className :: "string option"
  p_filename :: "string option"

record code_props =
  inline :: bool
  className :: "string option"
  children :: jsval
  filename :: "string option"

datatype rendered = InlineCode | Editor monaco_props

definition code :: "code_props \<Rightarrow> js_error + rendered" where
  "code p =
     (if inline p then Inr InlineCode
      else (case processContent (children p) of
              Inl e \<Rightarrow> Inl e
            | Inr content \<Rightarrow>
                Inr (Editor \<lparr> p_content = content,
                              p_language = lang_of (className p),
                              p_readOnly = Some True,
                              p_className = Some ''!bg-gray-900'',
                              p_filename =
                                Some (displayFilename (filename p) (lang_of (className p))) \<rparr>)))"

subsection \<open>The editor widget (MonacoEditor.tsx)\<close>

text \<open>
  The widget's state: the props after their defaults, the three \<open>useState\<close> cells and the
  two refs. The editor instance and its text model belong to the Monaco library; the
  model holds the text and the language id, and \<open>setModelLanguage\<close> replaces the
  language id of a model and nothing else.
\<close>

record text_model =
  model_text :: string
  model_language :: string

record editor_instance =
  getModel :: "text_model option"

record widget =
  content :: string
  readOnly :: bool
  tab_filename :: string
  height :: string
  currentLanguage :: string
  showLanguages :: bool
  editorRef :: "editor_instance option"
  monacoRef :: bool

text \<open>The destructuring defaults of the component (\<open>language = 'plaintext'\<close>,
  \<open>readOnly = true\<close>, \<open>filename = 'untitled'\<close>: a default applies to \<open>undefined\<close> only) and
  the initial values of the state cells.\<close>

definition MonacoEditor :: "monaco_props \<Rightarrow> widget" where
  "MonacoEditor p =
     \<lparr> content = p_content p,
       readOnly = (case p_readOnly p of None \<Rightarrow> True | Some b \<Rightarrow> b),
       tab_filename = (case p_filename p of None \<Rightarrow> ''untitled'' | Some f \<Rightarrow> f),
       height = ''200px'',
       currentLanguage = (case p_language p of None \<Rightarrow> ''plaintext'' | Some l \<Rightarrow> l),
       showLanguages = False,
       editorRef = None,
       monacoRef = False \<rparr>"

definition handleEditorDidMount :: "editor_instance \<Rightarrow> widget \<Rightarrow> widget" where
  "handleEditorDidMount editor w = w \<lparr> editorRef := Some editor, monacoRef := True \<rparr>"

definition setModelLanguage :: "text_model \<Rightarrow> string \<Rightarrow> text_model" where
  "setModelLanguage m lang = m \<lparr> model_language := lang \<rparr>"

text \<open>\<open>handleLanguageChange\<close> (MonacoEditor.tsx, lines 164 to 173).\<close>

definition handleLanguageChange :: "string \<Rightarrow> widget \<Rightarrow> widget" where
  "handleLanguageChange lang w =
     (let w1 = w \<lparr> currentLanguage := lang, showLanguages := False \<rparr>
      in (case editorRef w1 of
            Some editor \<Rightarrow>
              (if monacoRef w1 then
                 (case getModel editor of
                    Some m \<Rightarrow>
                      w1 \<lparr> editorRef := Some (editor \<lparr> getModel := Some (setModelLanguage m lang) \<rparr>) \<rparr>
                  | None \<Rightarrow> w1)
               else w1)
          | None \<Rightarrow> w1))"

text \<open>The two controls of the status bar: the button that opens and closes the list, and
  an entry of the list.\<close>

datatype selector_event = ToggleLanguages | SelectLanguage string

fun selector_step :: "widget \<Rightarrow> selector_event \<Rightarrow> widget" where
  "selector_step w ToggleLanguages = w \<lparr> showLanguages := \<not> showLanguages w \<rparr>"
| "selector_step w (SelectLanguage lang) = handleLanguageChange lang w"

definition selector_run :: "widget \<Rightarrow> selector_event list \<Rightarrow> widget" where
  "selector_run w evs = foldl selector_step w evs"

text \<open>The text the editor shows: the text of its model once mounted with one.\<close>

definition editor_text :: "widget \<Rightarrow> string option" where
  "editor_text w =
     (case editorRef w of
        None \<Rightarrow> None
      | Some e \<Rightarrow> (case getModel e of None \<Rightarrow> None | Some m \<Rightarrow> Some (model_text m)))"

definition editor_language :: "widget \<Rightarrow> string option" where
  "editor_language w =
     (case editorRef w of
        None \<Rightarrow> None
      | Some e \<Rightarrow> (case getModel e of None \<Rightarrow> None | Some m \<Rightarrow> Some (model_language m)))"

section \<open>The archival script (api/archiveAllUserChats-30days.js)\<close>

text \<open>
  The documents of the two collections, with the fields the scripts read. A field a
  document can lack is an option (the scripts treat a missing \<open>title\<close>, \<open>username\<close>,
  \<open>isArchived\<close> or \<open>updatedAt\<close> and a stored \<open>null\<close> alike). Timestamps are milliseconds
  since the epoch.
\<close>

type_synonym oid = string

record user_doc =
  user_id :: oid
  username :: "string option"

text \<open>
  A string field whose value is printed as it stands: a document read with \<open>lean()\<close>
  gives \<open>undefined\<close> for a field it lacks and \<open>null\<close> for a stored \<open>null\<close>, and a
  template literal prints the two differently.
\<close>

datatype stored_text = FieldMissing | FieldNull | FieldText string

record convo_doc =
  convo_id :: oid
  conversationId :: string
  user :: oid
  title :: "string option"
  model :: stored_text
  isArchived :: "bool option"
  updatedAt :: "int option"

text \<open>
  What the run is given besides its argument vector: the user collection (never
  written), the value \<open>new Date()\<close> takes in the iteration for the \<open>i\<close>-th username, the
  local time zone, and for each database call, counted from 0 in the order they are
  made, whether it throws. The time zone is the function \<open>LocalTZA(t, isUTC)\<close> of the
  language standard: the offset of local time from UTC in milliseconds, at the UTC
  instant \<open>t\<close> when \<open>isUTC\<close> holds and at the local time \<open>t\<close> otherwise.
\<close>

record archive_env =
  users :: "user_doc list"
  clock :: "nat \<Rightarrow> int"
  localTZA :: "int \<Rightarrow> bool \<Rightarrow> int"
  db_fault :: "nat \<Rightarrow> bool"

datatype db_call =
    Connect
  | FindOneUser string
  | FindConversations oid int
  | UpdateMany "oid list"
  | Disconnect

datatype console_line =
    LogConnected
  | ErrNoUsername
  | ErrInvalidUsername
  | ErrUserNotFound string
  | LogProcessing string oid
  | LogNoConversations string
  | LogDryRun nat string
  | LogArchiving nat string
  | LogArchived nat string
  | LogCompleted
  | ErrArchiving
  | LogDisconnected

record archive_state =
  conversations :: "convo_doc list"
  db_calls :: "db_call list"
  console :: "console_line list"

text \<open>How a stretch of the \<open>try\<close> block ends: it runs on, \<open>process.exit\<close> was called, or
  an awaited call threw.\<close>

datatype flow = Continue | Exited nat | Thrown

definition say :: "console_line \<Rightarrow> archive_state \<Rightarrow> archive_state" where
  "say l s = s \<lparr> console := console s @ [l] \<rparr>"

text \<open>An awaited database call: it is recorded, and whether it succeeds is read off the
  environment at its position in the order of calls.\<close>

definition attempt :: "archive_env \<Rightarrow> db_call \<Rightarrow> archive_state \<Rightarrow> bool \<times> archive_state" where
  "attempt env c s =
     (\<not> db_fault env (length (db_calls s)), s \<lparr> db_calls := db_calls s @ [c] \<rparr>)"

text \<open>\<open>process.argv.includes('--dry-run')\<close>, over the whole argument vector.\<close>

definition DRY_RUN :: "string list \<Rightarrow> bool" where
  "DRY_RUN argv = (''--dry-run'' \<in> set argv)"

definition DAYS_THRESHOLD :: int where
  "DAYS_THRESHOLD = 30"

text \<open>\<open>/^[a-zA-Z0-9_]+$/.test(u)\<close>.\<close>

definition valid_username :: "string \<Rightarrow> bool" where
  "valid_username u = (u \<noteq> [] \<and> list_all word_char u)"

text \<open>\<open>User.findOne({ username })\<close>.\<close>

definition findOne :: "user_doc list \<Rightarrow> string \<Rightarrow> user_doc option" where
  "findOne us name = find (\<lambda>u. username u = Some name) us"

text \<open>
  \<open>dateThreshold.setDate(dateThreshold.getDate() - DAYS_THRESHOLD)\<close> on
  \<open>dateThreshold = new Date()\<close>, as the language standard computes it: the time value is
  taken to local time, the day of the month is lowered by thirty, which moves the local
  time back by thirty days of 86400000 milliseconds and keeps the time within the day,
  and the local time so found is taken back to UTC with the offset in force there. (A
  time value outside the range of \<open>Date\<close> is not modelled.)
\<close>

definition msPerDay :: int where
  "msPerDay = 86400000"

definition setDate_back :: "(int \<Rightarrow> bool \<Rightarrow> int) \<Rightarrow> int \<Rightarrow> int \<Rightarrow> int" where
  "setDate_back tza days t =
     (let localTime = t + tza t True;
          newDate = localTime - days * msPerDay
      in newDate - tza newDate False)"

definition dateThreshold :: "(int \<Rightarrow> bool \<Rightarrow> int) \<Rightarrow> int \<Rightarrow> int" where
  "dateThreshold tza now = setDate_back tza DAYS_THRESHOLD now"

text \<open>The filter of \<open>Conversation.find\<close>: \<open>$lt\<close> needs the field to be there, \<open>$ne: true\<close>
  also matches a document without the field.\<close>

definition is_old :: "oid \<Rightarrow> int \<Rightarrow> convo_doc \<Rightarrow> bool" where
  "is_old userId threshold c =
     (user c = userId
      \<and> (case updatedAt c of None \<Rightarrow> False | Some t \<Rightarrow> t < threshold)
      \<and> isArchived c \<noteq> Some True)"

definition find_old :: "oid \<Rightarrow> int \<Rightarrow> convo_doc list \<Rightarrow> convo_doc list" where
  "find_old userId threshold cs = filter (is_old userId threshold) cs"

text \<open>\<open>Conversation.updateMany({ _id: { $in: ids } }, { $set: { isArchived: true } })\<close>.\<close>

definition updateMany :: "oid list \<Rightarrow> convo_doc list \<Rightarrow> convo_doc list" where
  "updateMany ids cs =
     map (\<lambda>c. if convo_id c \<in> set ids then c \<lparr> isArchived := Some True \<rparr> else c) cs"

text \<open>The body of the loop over the usernames (lines 42 to 87), for the \<open>i\<close>-th one.\<close>

definition archive_user ::
  "archive_env \<Rightarrow> bool \<Rightarrow> nat \<Rightarrow> archive_state \<Rightarrow> string \<Rightarrow> flow \<times> archive_state" where
  "archive_user env dry i s usernameToArchive =
     (if \<not> valid_username usernameToArchive then (Exited 1, say ErrInvalidUsername s)
      else
        (case attempt env (FindOneUser usernameToArchive) s of
           (False, s1) \<Rightarrow> (Thrown, s1)
         | (True, s1) \<Rightarrow>
             (case findOne (users env) usernameToArchive of
                None \<Rightarrow> (Exited 1, say (ErrUserNotFound usernameToArchive) s1)
              | Some u \<Rightarrow>
                  (let userId = user_id u;
                       s2 = say (LogProcessing usernameToArchive userId) s1;
                       threshold = dateThreshold (localTZA env) (clock env i)
                   in (case attempt env (FindConversations userId threshold) s2 of
                         (False, s3) \<Rightarrow> (Thrown, s3)
                       | (True, s3) \<Rightarrow>
                           (let oldConversations = find_old userId threshold (conversations s3)
                            in if oldConversations = [] then
                                 (Continue, say (LogNoConversations usernameToArchive) s3)
                               else if dry then
                                 (Continue,
                                  say (LogDryRun (length oldConversations) usernameToArchive) s3)
                               else
                                 (let s4 = say (LogArchiving (length oldConversations)
                                                  usernameToArchive) s3;
                                      conversationIds = map convo_id oldConversations
                                  in (case attempt env (UpdateMany conversationIds) s4 of
                                        (False, s5) \<Rightarrow> (Thrown, s5)
                                      | (True, s5) \<Rightarrow>
                                          (Continue,
                                           say (LogArchived (length oldConversations)
                                                  usernameToArchive)
                                             (s5 \<lparr> conversations :=
                                                     updateMany conversationIds
                                                       (conversations s5) \<rparr>))))))))))"

fun archive_loop ::
  "archive_env \<Rightarrow> bool \<Rightarrow> nat \<Rightarrow> archive_state \<Rightarrow> string list \<Rightarrow> flow \<times> archive_state" where
  "archive_loop env dry i s [] = (Continue, s)"
| "archive_loop env dry i s (u # us) =
     (case archive_user env dry i s u of
        (Continue, s') \<Rightarrow> archive_loop env dry (Suc i) s' us
      | (Exited n, s') \<Rightarrow> (Exited n, s')
      | (Thrown, s') \<Rightarrow> (Thrown, s'))"

text \<open>The \<open>try\<close> block (lines 28 to 90): the connection comes first, then the arguments
  after the interpreter and the script path.\<close>

definition try_block :: "archive_env \<Rightarrow> string list \<Rightarrow> archive_state \<Rightarrow> flow \<times> archive_state" where
  "try_block env argv s =
     (case attempt env Connect s of
        (False, s1) \<Rightarrow> (Thrown, s1)
      | (True, s1) \<Rightarrow>
          (let s2 = say LogConnected s1; args = drop 2 argv
           in if args = [] then (Exited 1, say ErrNoUsername s2)
              else (case archive_loop env (DRY_RUN argv) 0 s2 args of
                      (Continue, s3) \<Rightarrow> (Continue, say LogCompleted s3)
                    | (Exited n, s3) \<Rightarrow> (Exited n, s3)
                    | (Thrown, s3) \<Rightarrow> (Thrown, s3))))"

text \<open>
  How the whole call ends. \<open>process.exit\<close> ends the process where it stands: neither the
  \<open>catch\<close> nor the \<open>finally\<close> block runs. An exception is caught and reported, and the
  \<open>finally\<close> block disconnects; if that call throws, the promise of the function rejects.
\<close>

datatype outcome = Completed | ProcessExit nat | Caught | Rejected

definition finally_block :: "archive_env \<Rightarrow> outcome \<Rightarrow> archive_state \<Rightarrow> outcome \<times> archive_state" where
  "finally_block env out s =
     (case attempt env Disconnect s of
        (False, s1) \<Rightarrow> (Rejected, s1)
      | (True, s1) \<Rightarrow> (out, say LogDisconnected s1))"

definition archiveOldConversations ::
  "archive_env \<Rightarrow> string list \<Rightarrow> convo_doc list \<Rightarrow> outcome \<times> archive_state" where
  "archiveOldConversations env argv convs =
     (case try_block env argv \<lparr> conversations = convs, db_calls = [], console = [] \<rparr> of
        (Continue, s) \<Rightarrow> finally_block env Completed s
      | (Exited n, s) \<Rightarrow> (ProcessExit n, s)
      | (Thrown, s) \<Rightarrow> finally_block env Caught (say ErrArchiving s))"

section \<open>The export script\<close>

subsection \<open>Node's path functions, POSIX flavour\<close>

text \<open>The segments of a path between its slashes; there is always at least one.\<close>

fun split_slash :: "string \<Rightarrow> string list" where
  "split_slash [] = [[]]"
| "split_slash (c # cs) =
     (if c = CHR ''/'' then [] # split_slash cs
      else (case split_slash cs of
              [] \<Rightarrow> [[c]]
            | seg # segs \<Rightarrow> (c # seg) # segs))"

text \<open>
  \<open>normalizeString\<close>: empty segments and \<open>.\<close> are dropped; \<open>..\<close> removes the segment
  before it, unless there is none or it is itself \<open>..\<close>, in which case \<open>..\<close> is kept when
  the path is relative.
\<close>

fun normalize_segments :: "bool \<Rightarrow> string list \<Rightarrow> string list \<Rightarrow> string list" where
  "normalize_segments allowAboveRoot res [] = res"
| "normalize_segments allowAboveRoot res (seg # segs) =
     (if seg = ''..'' then
        (if res \<noteq> [] \<and> last res \<noteq> ''..'' then
           normalize_segments allowAboveRoot (butlast res) segs
         else if allowAboveRoot then normalize_segments allowAboveRoot (res @ [''..'']) segs
         else normalize_segments allowAboveRoot res segs)
      else if seg = [] \<or> seg = ''.'' then normalize_segments allowAboveRoot res segs
      else normalize_segments allowAboveRoot (res @ [seg]) segs)"

definition path_normalize :: "string \<Rightarrow> string" where
  "path_normalize p =
     (if p = [] then ''.''
      else
        (let isAbsolute = (hd p = CHR ''/'');
             trailingSeparator = (last p = CHR ''/'');
             r = join_strings ''/'' (normalize_segments (\<not> isAbsolute) [] (split_slash p))
         in if r = [] then (if isAbsolute then ''/'' else if trailingSeparator then ''./'' else ''.'')
            else (if isAbsolute then ''/'' else []) @ r @ (if trailingSeparator then ''/'' else [])))"

text \<open>\<open>path.join\<close>: the non-empty arguments joined with a slash, then normalized.\<close>

definition path_join :: "string list \<Rightarrow> string" where
  "path_join args =
     (let joined = filter (\<lambda>a. a \<noteq> []) args
      in if joined = [] then ''.'' else path_normalize (join_strings ''/'' joined))"

text \<open>\<open>path.dirname\<close>: trailing slashes and the last segment are dropped, scanning from
  the end down to index 1; the slash found ends the directory part.\<close>

definition path_dirname :: "string \<Rightarrow> string" where
  "path_dirname p =
     (if p = [] then ''.''
      else
        (let hasRoot = (hd p = CHR ''/'');
             r = dropWhile (\<lambda>c. c \<noteq> CHR ''/'') (dropWhile (\<lambda>c. c = CHR ''/'') (rev (tl p)))
         in if r = [] then (if hasRoot then ''/'' else ''.'')
            else if hasRoot \<and> length r = 1 then ''//''
            else take (length r) p))"

subsection \<open>The script\<close>

definition exportDir :: string where
  "exportDir = ''export''"

text \<open>\<open>title.replace(/[/\\?%*:|"<>]/g, '-')\<close>: the ten characters of the class.\<close>

definition special_chars :: "char list" where
  "special_chars =
     [CHR ''/'', CHR 0x5C, CHR ''?'', CHR ''%'', CHR ''*'', CHR '':'', CHR ''|'', CHR 0x22,
      CHR ''<'', CHR ''>'']"

definition sanitize_title :: "string \<Rightarrow> string" where
  "sanitize_title t = map (\<lambda>c. if c \<in> set special_chars then CHR ''-'' else c) t"

text \<open>A field of a document inside a template literal: a missing field prints as
  \<open>undefined\<close>, a stored \<open>null\<close> as \<open>null\<close>.\<close>

fun template_string :: "stored_text \<Rightarrow> string" where
  "template_string FieldMissing = ''undefined''"
| "template_string FieldNull = ''null''"
| "template_string (FieldText s) = s"

text \<open>
  What the run is given: the two collections, \<open>getMessages\<close> (imported from
  \<open>./models/Message\<close>) as the messages stored for a conversation id, the messages being
  opaque, \<open>JSON.stringify(messages, null, 2)\<close> as a function of the messages, and for
  each awaited database call and each file system call, counted from 0 in the order they
  are made, whether it throws.
\<close>

record 'm export_env =
  all_users :: "user_doc list"
  all_conversations :: "convo_doc list"
  getMessages :: "string \<Rightarrow> 'm list"
  JSON_stringify :: "'m list \<Rightarrow> string"
  io_fault :: "nat \<Rightarrow> bool"

datatype io_call =
    MongooseConnect
  | FindUsers
  | FindUserConversations oid
  | GetMessages string
  | FindUserById oid
  | MkdirSync string
  | WriteFileSync string
  | MongooseDisconnect

datatype export_line =
    LogNoConversationsFound oid
  | LogNoMessagesFound string
  | LogExported "string option" string
  | ErrExporting
  | ErrFetching
  | LogFinished

record export_state =
  io_calls :: "io_call list"
  files :: "(string \<times> string) list"
  dirs :: "string list"
  out :: "export_line list"

definition print_line :: "export_line \<Rightarrow> export_state \<Rightarrow> export_state" where
  "print_line l s = s \<lparr> out := out s @ [l] \<rparr>"

definition io_attempt :: "'m export_env \<Rightarrow> io_call \<Rightarrow> export_state \<Rightarrow> bool \<times> export_state" where
  "io_attempt env c s =
     (\<not> io_fault env (length (io_calls s)), s \<lparr> io_calls := io_calls s @ [c] \<rparr>)"

text \<open>A call whose promise is not awaited (\<open>mongoose.disconnect()\<close> in the \<open>finally\<close>
  blocks): it is recorded, and its result cannot reach the caller.\<close>

definition io_fire :: "io_call \<Rightarrow> export_state \<Rightarrow> export_state" where
  "io_fire c s = s \<lparr> io_calls := io_calls s @ [c] \<rparr>"

text \<open>\<open>user?.username ?? 'unknown_user'\<close>.\<close>

definition userName_of :: "user_doc option \<Rightarrow> string" where
  "userName_of u =
     (case u of
        None \<Rightarrow> ''unknown_user''
      | Some d \<Rightarrow> (case username d of None \<Rightarrow> ''unknown_user'' | Some n \<Rightarrow> n))"

definition findById :: "user_doc list \<Rightarrow> oid \<Rightarrow> user_doc option" where
  "findById us i = find (\<lambda>u. user_id u = i) us"

text \<open>The file name of a conversation and its path (line 50).\<close>

definition export_file_name :: "string \<Rightarrow> convo_doc \<Rightarrow> string" where
  "export_file_name conversationTitle c =
     conversationTitle @ ''--'' @ template_string (model c) @ ''-'' @ conversationId c @ ''.json''"

definition exportPath :: "string \<Rightarrow> string \<Rightarrow> convo_doc \<Rightarrow> string" where
  "exportPath userName conversationTitle c =
     path_join [exportDir, userName, export_file_name conversationTitle c]"

text \<open>The path as the specification writes it, to compare \<open>exportPath\<close> with:
  \<open><export-root>/<username>/<sanitized-title>--<model>-<conversation-id>.json\<close>.\<close>

definition spec_export_path :: "string \<Rightarrow> string \<Rightarrow> convo_doc \<Rightarrow> string" where
  "spec_export_path userName conversationTitle c =
     exportDir @ ''/'' @ userName @ ''/'' @ export_file_name conversationTitle c"

text \<open>
  The body of the loop over a user's conversations (lines 38 to 54). \<open>title.replace\<close>
  on a document without a title is a \<open>TypeError\<close>.
\<close>

definition export_conversation ::
  "'m export_env \<Rightarrow> oid \<Rightarrow> export_state \<Rightarrow> convo_doc \<Rightarrow> flow \<times> export_state" where
  "export_conversation env userId s c =
     (case title c of
        None \<Rightarrow> (Thrown, s)
      | Some t \<Rightarrow>
          (let conversationTitle = sanitize_title t
           in (case io_attempt env (GetMessages (conversationId c)) s of
                 (False, s1) \<Rightarrow> (Thrown, s1)
               | (True, s1) \<Rightarrow>
                   (let messages = getMessages env (conversationId c)
                    in if messages = [] then
                         (Continue, print_line (LogNoMessagesFound (conversationId c)) s1)
                       else
                         (case io_attempt env (FindUserById userId) s1 of
                            (False, s2) \<Rightarrow> (Thrown, s2)
                          | (True, s2) \<Rightarrow>
                              (let userName = userName_of (findById (all_users env) userId);
                                   p = exportPath userName conversationTitle c
                               in (case io_attempt env (MkdirSync (path_dirname p)) s2 of
                                     (False, s3) \<Rightarrow> (Thrown, s3)
                                   | (True, s3) \<Rightarrow>
                                       (case io_attempt env (WriteFileSync p)
                                               (s3 \<lparr> dirs := path_dirname p # dirs s3 \<rparr>) of
                                          (False, s4) \<Rightarrow> (Thrown, s4)
                                        | (True, s4) \<Rightarrow>
                                            (Continue,
                                             print_line (LogExported (title c) p)
                                               (s4 \<lparr> files :=
                                                       (p, JSON_stringify env messages)
                                                       # files s4 \<rparr>))))))))))"

fun export_loop ::
  "'m export_env \<Rightarrow> oid \<Rightarrow> export_state \<Rightarrow> convo_doc list \<Rightarrow> flow \<times> export_state" where
  "export_loop env userId s [] = (Continue, s)"
| "export_loop env userId s (c # cs) =
     (case export_conversation env userId s c of
        (Continue, s') \<Rightarrow> export_loop env userId s' cs
      | (Exited n, s') \<Rightarrow> (Exited n, s')
      | (Thrown, s') \<Rightarrow> (Thrown, s'))"

text \<open>The \<open>try\<close> block of \<open>exportUserConversations\<close> (lines 28 to 55).\<close>

definition export_user_try :: "'m export_env \<Rightarrow> oid \<Rightarrow> export_state \<Rightarrow> flow \<times> export_state" where
  "export_user_try env userId s =
     (case io_attempt env MongooseConnect s of
        (False, s1) \<Rightarrow> (Thrown, s1)
      | (True, s1) \<Rightarrow>
          (case io_attempt env (FindUserConversations userId) s1 of
             (False, s2) \<Rightarrow> (Thrown, s2)
           | (True, s2) \<Rightarrow>
               (let convs = filter (\<lambda>c. user c = userId) (all_conversations env)
                in if convs = [] then (Continue, print_line (LogNoConversationsFound userId) s2)
                   else export_loop env userId s2 convs)))"

text \<open>
  \<open>exportUserConversations\<close>: whatever the \<open>try\<close> block threw is caught and reported
  (lines 57 to 59), the \<open>finally\<close> block disconnects, and the function returns normally:
  its result is the state alone.
\<close>

definition exportUserConversations :: "'m export_env \<Rightarrow> oid \<Rightarrow> export_state \<Rightarrow> export_state" where
  "exportUserConversations env userId s =
     (case export_user_try env userId s of
        (Thrown, s') \<Rightarrow> io_fire MongooseDisconnect (print_line ErrExporting s')
      | (_, s') \<Rightarrow> io_fire MongooseDisconnect s')"

fun export_users_loop :: "'m export_env \<Rightarrow> export_state \<Rightarrow> user_doc list \<Rightarrow> export_state" where
  "export_users_loop env s [] = s"
| "export_users_loop env s (u # us) =
     export_users_loop env (exportUserConversations env (user_id u) s) us"

text \<open>\<open>exportAllUsers\<close> (lines 64 to 78) and the final \<open>then\<close> of the script.\<close>

definition exportAllUsers :: "'m export_env \<Rightarrow> export_state \<Rightarrow> export_state" where
  "exportAllUsers env s =
     (case io_attempt env MongooseConnect s of
        (False, s1) \<Rightarrow> io_fire MongooseDisconnect (print_line ErrFetching s1)
      | (True, s1) \<Rightarrow>
          (case io_attempt env FindUsers s1 of
             (False, s2) \<Rightarrow> io_fire MongooseDisconnect (print_line ErrFetching s2)
           | (True, s2) \<Rightarrow>
               io_fire MongooseDisconnect (export_users_loop env s2 (all_users env))))"

definition export_script :: "'m export_env \<Rightarrow> export_state" where
  "export_script env =
     print_line LogFinished
       (exportAllUsers env \<lparr> io_calls = [], files = [], dirs = [], out = [] \<rparr>)"

section \<open>Example data\<close>

text \<open>
  Values for the worked examples below. A content node: a sequence of a string, an
  element with nested children, an empty element, \<open>null\<close> and a plain object with
  \<open>props.children\<close>; and the properties of a raw-text node. Then documents and
  environments: two users with usernames,
  one whose username is the empty string, conversations on the model \<open>gpt-4\<close>, a
  collection of four (of the first user: one old, one recent, one old and already
  archived; of the second user: one old), a clock that reads 3000000000 in a zone that
  keeps UTC (so that the threshold is 408000000), no failing database call, and for the
  export two messages per conversation, printed by concatenation, with the failing calls
  as a parameter.
\<close>

abbreviation ex_node :: jsval where
  "ex_node \<equiv>
     Arr [Str ''let x'',
          Element [(''className'', Str ''hljs''),
                   (''children'',
                    Arr [Str '' = '', Obj [(''type'', Str ''text''), (''value'', Prim ''1'')]])],
          Element [],
          Null,
          Obj [(''props'', Obj [(''children'', Str '';'')])]]"

abbreviation ex_raw_node :: "(string \<times> jsval) list" where
  "ex_raw_node \<equiv> [(''type'', Str ''raw''), (''raw'', Str ''<b>'')]"

abbreviation ex_alice :: user_doc where
  "ex_alice \<equiv> \<lparr> user_id = ''u1'', username = Some ''alice'' \<rparr>"

abbreviation ex_bob :: user_doc where
  "ex_bob \<equiv> \<lparr> user_id = ''u2'', username = Some ''bob'' \<rparr>"

abbreviation ex_unnamed :: user_doc where
  "ex_unnamed \<equiv> \<lparr> user_id = ''u3'', username = Some [] \<rparr>"

abbreviation ex_convo ::
  "oid \<Rightarrow> string \<Rightarrow> oid \<Rightarrow> string option \<Rightarrow> bool option \<Rightarrow> int \<Rightarrow> convo_doc" where
  "ex_convo i k u t a d \<equiv>
     \<lparr> convo_id = i, conversationId = k, user = u, title = t, model = FieldText ''gpt-4'',
       isArchived = a, updatedAt = Some d \<rparr>"

abbreviation ex_collection :: "convo_doc list" where
  "ex_collection \<equiv>
     [ex_convo ''c1'' ''k1'' ''u1'' (Some ''Chat'') None 1000,
      ex_convo ''c2'' ''k2'' ''u1'' (Some ''Chat'') (Some False) 2999999999,
      ex_convo ''c3'' ''k3'' ''u1'' (Some ''Chat'') (Some True) 1000,
      ex_convo ''c4'' ''k4'' ''u2'' (Some ''Chat'') None 2000]"

abbreviation ex_archive_env :: archive_env where
  "ex_archive_env \<equiv>
     \<lparr> users = [ex_alice, ex_bob], clock = (\<lambda>_. 3000000000), localTZA = (\<lambda>_ _. 0),
       db_fault = (\<lambda>_. False) \<rparr>"

abbreviation ex_export_env ::
  "user_doc list \<Rightarrow> convo_doc list \<Rightarrow> (nat \<Rightarrow> bool) \<Rightarrow> string export_env" where
  "ex_export_env us cs fault \<equiv>
     \<lparr> all_users = us, all_conversations = cs,
       getMessages = (\<lambda>k. [k @ ''-m1'', k @ ''-m2'']), JSON_stringify = concat,
       io_fault = fault \<rparr>"

abbreviation ex_archive_start :: "convo_doc list \<Rightarrow> archive_state" where
  "ex_archive_start cs \<equiv> \<lparr> conversations = cs, db_calls = [], console = [] \<rparr>"

abbreviation ex_export_start :: export_state where
  "ex_export_start \<equiv> \<lparr> io_calls = [], files = [], dirs = [], out = [] \<rparr>"

section \<open>Properties of the content flattening and the editor widget\<close>

lemma join_results_all:
  "\<forall>x\<in>set xs. f x = Inr (g x) \<Longrightarrow> join_results (map f xs) = Inr (concat (map g xs))"
  by (induction xs) auto

lemma field_no_key: "\<not> has_key k fs \<Longrightarrow> field k fs = Undefined"
  by (simp add: has_key_def field_def)

lemma processContent_props_ok: "props_ok c \<Longrightarrow> processContent c = Inr (flatten c)"
proof (induction c rule: processContent.induct)
  case (1 xs)
  then have "\<forall>x\<in>set xs. processContent x = Inr (flatten x)"
    by (simp add: list_all_iff)
  then show ?case by (simp add: join_results_all)
next
  case (2 ps)
  then show ?case by simp
next
  case (3 fs)
  show ?case
  proof (cases "has_key ''value'' fs \<or> has_key ''raw'' fs")
    case True
    then show ?thesis by auto
  next
    case False
    note nv = this
    show ?thesis
    proof (cases "has_key ''props'' fs")
      case False
      with nv show ?thesis by (simp add: field_no_key)
    next
      case True
      with nv 3 show ?thesis
        by (cases "field ''props'' fs") (auto split: if_splits)
    qed
  qed
qed simp_all

text \<open>
  Outside \<open>props_ok\<close> the probe throws, so \<open>props_ok\<close> is exactly the set of inputs on which
  \<open>processContent\<close> returns: an object without \<open>value\<close> and \<open>raw\<close> whose \<open>props\<close> property
  holds a primitive, \<open>null\<close> or \<open>undefined\<close> ends the flattening with a \<open>TypeError\<close>.
\<close>

lemma join_results_TypeError:
  assumes "\<forall>x\<in>set xs. f x = Inl TypeError \<or> (\<exists>s. f x = Inr s)"
    and "\<exists>x\<in>set xs. f x = Inl TypeError"
  shows "join_results (map f xs) = Inl TypeError"
  using assms
proof (induction xs)
  case Nil
  then show ?case by simp
next
  case (Cons x xs)
  show ?case
  proof (cases "f x")
    case (Inl e)
    then show ?thesis by (cases e) simp
  next
    case (Inr s)
    with Cons.prems have "\<exists>y\<in>set xs. f y = Inl TypeError"
      by auto
    moreover from Cons.prems have "\<forall>y\<in>set xs. f y = Inl TypeError \<or> (\<exists>s. f y = Inr s)"
      by simp
    ultimately have "join_results (map f xs) = Inl TypeError"
      by (rule Cons.IH [rotated])
    with Inr show ?thesis by simp
  qed
qed

lemma processContent_total: "processContent c = Inl TypeError \<or> (\<exists>s. processContent c = Inr s)"
  by (cases "processContent c") (auto intro: js_error.exhaust)

lemma processContent_not_props_ok: "\<not> props_ok c \<Longrightarrow> processContent c = Inl TypeError"
proof (induction c rule: processContent.induct)
  case (1 xs)
  then have "\<exists>x\<in>set xs. processContent x = Inl TypeError"
    by (auto simp: list_all_iff)
  with processContent_total show ?case
    by (simp add: join_results_TypeError)
next
  case (2 ps)
  then show ?case by simp
next
  case (3 fs)
  from "3.prems" have k: "\<not> has_key ''value'' fs" "\<not> has_key ''raw'' fs" "has_key ''props'' fs"
    by (auto split: if_splits)
  with 3 show ?case
    by (cases "field ''props'' fs") (auto split: if_splits)
qed simp_all

lemma processContent_props_not_object:
  "processContent (Obj [(''props'', Null)]) = Inl TypeError"
  by (simp add: has_key_def field_def)

text \<open>
  Claim C1, as stated, fails. Its rules send an object to the recursive rule only when it
  exposes children under \<open>props.children\<close>, and every other input to its default string
  form. A React element whose props hold no children (an empty element) is flattened to
  the empty string, not to its default string form \<open>[object Object]\<close>: the element test
  comes first and recurses into \<open>props.children\<close> whether it is there or not. A plain
  object with the same props, which is not a React element, does give \<open>[object Object]\<close>,
  so no reading of the rules that looks at \<open>value\<close>, \<open>raw\<close> and \<open>props.children\<close> alone fits
  both.
\<close>

theorem processContent_element_counterexample:
  "processContent (Element []) = Inr []
   \<and> String_js (Element []) = ''[object Object]''
   \<and> processContent (Obj [(''props'', Obj [])]) = Inr ''[object Object]''"
  by (simp add: has_key_def field_def)

lemma processContent_strings: "processContent (Arr (map Str ss)) = Inr (concat ss)"
proof -
  have "\<forall>x\<in>set (map Str ss). processContent x = Inr (flatten x)"
    by auto
  then have "processContent (Arr (map Str ss)) = Inr (concat (map flatten (map Str ss)))"
    by (simp only: processContent.simps join_results_all)
  moreover have "map flatten (map Str ss) = ss"
    by (induction ss) auto
  ultimately show ?thesis by simp
qed

text \<open>
  Claim C1, amended. On every input on which the probe \<open>'children' in props\<close> cannot
  throw (\<open>props_ok\<close>), \<open>processContent\<close> returns a string, and the string is given by the
  rules of \<open>flatten\<close>: a sequence is the in-order concatenation of its flattened elements;
  a React element is flattened through \<open>props.children\<close>, absent children giving the empty
  string; another object gives the string form of its \<open>value\<close>, else of its \<open>raw\<close>, else
  is flattened through \<open>props.children\<close> when its \<open>props\<close> is an object with a \<open>children\<close>
  property, else gives its default string form; \<open>undefined\<close> and \<open>null\<close> give the empty
  string. In particular a plain string gives itself, a one-level array of strings their
  concatenation, and a node with a raw-text field and no \<open>value\<close> property that text,
  also when nested in an element and a sequence.
\<close>

theorem processContent_rules:
  "(props_ok c \<longrightarrow> processContent c = Inr (flatten c))
   \<and> processContent (Str s) = Inr s
   \<and> processContent (Arr (map Str ss)) = Inr (concat ss)
   \<and> (\<not> has_key ''value'' fs \<and> map_of fs ''raw'' = Some (Str t) \<longrightarrow>
        processContent (Obj fs) = Inr t
        \<and> processContent (Element [(''children'', Arr [Str s, Obj fs])]) = Inr (s @ t))"
proof -
  have raw: "processContent (Obj fs) = Inr t"
    if "\<not> has_key ''value'' fs \<and> map_of fs ''raw'' = Some (Str t)"
    using that by (simp add: has_key_def field_def)
  have nested: "processContent (Element [(''children'', Arr [Str s, Obj fs])]) = Inr (s @ t)"
    if "\<not> has_key ''value'' fs \<and> map_of fs ''raw'' = Some (Str t)"
    using raw [OF that] by (simp add: field_def)
  have str: "processContent (Str s) = Inr s"
    by simp
  from raw nested str processContent_strings [of ss] processContent_props_ok [of c]
  show ?thesis by blast
qed

text \<open>Claim C1, witness: a sequence with a string, an element with nested children, an
  empty element, \<open>null\<close> and a plain object with \<open>props.children\<close>; and a raw-text node.\<close>

theorem processContent_rules_witness:
  "props_ok ex_node
   \<and> processContent ex_node = Inr ''let x = 1;''
   \<and> \<not> has_key ''value'' ex_raw_node
   \<and> map_of ex_raw_node ''raw'' = Some (Str ''<b>'')
   \<and> processContent (Obj ex_raw_node) = Inr ''<b>''
   \<and> processContent (Element [(''children'', Arr [Str ''a'', Obj ex_raw_node])]) = Inr ''a<b>''"
  using processContent_rules [of ex_node "''a''" "[]" ex_raw_node "''<b>''"]
  by (simp add: has_key_def field_def)

text \<open>
  Claim C9. The replacement of \<open>undefined\<close> and \<open>null\<close> by the empty string happens in the
  last branch only: an object whose \<open>value\<close> property is there and holds \<open>undefined\<close> or
  \<open>null\<close> gives the text \<open>undefined\<close> or \<open>null\<close>, while \<open>undefined\<close> and \<open>null\<close> themselves
  give the empty string; and when an object has both a \<open>value\<close> and a \<open>raw\<close> property,
  the result is the string form of \<open>value\<close>.
\<close>

theorem value_key_precedence:
  "(map_of fs1 ''value'' = Some Undefined \<longrightarrow> processContent (Obj fs1) = Inr ''undefined'')
   \<and> (map_of fs2 ''value'' = Some Null \<longrightarrow> processContent (Obj fs2) = Inr ''null'')
   \<and> (map_of fs3 ''value'' = Some v \<and> map_of fs3 ''raw'' = Some r \<longrightarrow>
        processContent (Obj fs3) = Inr (String_js v))
   \<and> processContent Undefined = Inr []
   \<and> processContent Null = Inr []"
  by (simp add: has_key_def field_def)

text \<open>Claim C9, witness: three objects, one for each premise.\<close>

theorem value_key_precedence_witness:
  "map_of [(''value'', Undefined)] ''value'' = Some Undefined
   \<and> processContent (Obj [(''value'', Undefined)]) = Inr ''undefined''
   \<and> map_of [(''type'', Str ''text''), (''value'', Null)] ''value'' = Some Null
   \<and> processContent (Obj [(''type'', Str ''text''), (''value'', Null)]) = Inr ''null''
   \<and> map_of [(''raw'', Str ''r''), (''value'', Str ''v'')] ''value'' = Some (Str ''v'')
   \<and> map_of [(''raw'', Str ''r''), (''value'', Str ''v'')] ''raw'' = Some (Str ''r'')
   \<and> processContent (Obj [(''raw'', Str ''r''), (''value'', Str ''v'')]) = Inr ''v''"
  using value_key_precedence
    [of "[(''value'', Undefined)]" "[(''type'', Str ''text''), (''value'', Null)]"
      "[(''raw'', Str ''r''), (''value'', Str ''v'')]" "Str ''v''" "Str ''r''"]
  by simp

lemma language_match_nonempty: "language_match s = Some l \<Longrightarrow> l \<noteq> []"
  by (induction s) (auto split: option.splits if_splits)

lemma displayFilename_fallback:
  "fname = None \<or> fname = Some [] \<Longrightarrow>
   displayFilename fname (lang_of cls) =
     (case lang_of cls of None \<Rightarrow> ''untitled'' | Some l \<Rightarrow> ''untitled.'' @ l)"
  by (auto simp: displayFilename_def truthy_def lang_of_def split: option.splits
      dest: language_match_nonempty)

text \<open>
  Claim C10. For every code block the component renders with an editor, when the
  \<open>filename\<close> prop is absent or is the empty string, the file name the editor shows in its
  tab is \<open>untitled\<close>, a dot and the language tag when the class name carries one, and
  exactly \<open>untitled\<close> when it carries none; the empty string and the absent prop give the
  same name for every language tag.
\<close>

theorem empty_filename_falls_back:
  "(code p = Inr (Editor mp) \<and> (filename p = None \<or> filename p = Some []) \<longrightarrow>
      tab_filename (MonacoEditor mp) =
        (case lang_of (className p) of None \<Rightarrow> ''untitled'' | Some l \<Rightarrow> ''untitled.'' @ l))
   \<and> displayFilename (Some []) lang = displayFilename None lang"
proof -
  have "tab_filename (MonacoEditor mp) =
        (case lang_of (className p) of None \<Rightarrow> ''untitled'' | Some l \<Rightarrow> ''untitled.'' @ l)"
    if c: "code p = Inr (Editor mp)" and f: "filename p = None \<or> filename p = Some []"
  proof -
    from c have "p_filename mp = Some (displayFilename (filename p) (lang_of (className p)))"
      by (auto simp: code_def split: if_splits sum.splits)
    then show ?thesis
      using displayFilename_fallback [OF f] by (simp add: MonacoEditor_def)
  qed
  moreover have "displayFilename (Some []) lang = displayFilename None lang"
    by (simp add: displayFilename_def truthy_def)
  ultimately show ?thesis by blast
qed

text \<open>Claim C10, witness: an empty \<open>filename\<close> with the class \<open>hljs language-ts\<close>, and an
  absent \<open>filename\<close> with no class.\<close>

theorem empty_filename_falls_back_witness:
  "code \<lparr> inline = False, className = Some ''hljs language-ts'', children = Str ''x'',
          filename = Some [] \<rparr>
     = Inr (Editor \<lparr> p_content = ''x'', p_language = Some ''ts'', p_readOnly = Some True,
                     p_className = Some ''!bg-gray-900'', p_filename = Some ''untitled.ts'' \<rparr>)
   \<and> tab_filename
         (MonacoEditor \<lparr> p_content = ''x'', p_language = Some ''ts'', p_readOnly = Some True,
            p_className = Some ''!bg-gray-900'', p_filename = Some ''untitled.ts'' \<rparr>)
       = ''untitled.ts''
   \<and> code \<lparr> inline = False, className = None, children = Str ''x'', filename = None \<rparr>
     = Inr (Editor \<lparr> p_content = ''x'', p_language = None, p_readOnly = Some True,
                     p_className = Some ''!bg-gray-900'', p_filename = Some ''untitled'' \<rparr>)"
proof -
  have l: "lang_of (Some ''hljs language-ts'') = Some ''ts''"
    by (simp add: lang_of_def strip_prefix_def word_char_def)
  have c: "code \<lparr> inline = False, className = Some ''hljs language-ts'', children = Str ''x'',
                   filename = Some [] \<rparr>
     = Inr (Editor \<lparr> p_content = ''x'', p_language = Some ''ts'', p_readOnly = Some True,
                     p_className = Some ''!bg-gray-900'', p_filename = Some ''untitled.ts'' \<rparr>)"
    by (simp add: code_def l displayFilename_def truthy_def)
  have n: "code \<lparr> inline = False, className = None, children = Str ''x'', filename = None \<rparr>
     = Inr (Editor \<lparr> p_content = ''x'', p_language = None, p_readOnly = Some True,
                     p_className = Some ''!bg-gray-900'', p_filename = Some ''untitled'' \<rparr>)"
    by (simp add: code_def lang_of_def displayFilename_def truthy_def)
  from c n l empty_filename_falls_back
    [of "\<lparr> inline = False, className = Some ''hljs language-ts'', children = Str ''x'',
           filename = Some [] \<rparr>"
      "\<lparr> p_content = ''x'', p_language = Some ''ts'', p_readOnly = Some True,
         p_className = Some ''!bg-gray-900'', p_filename = Some ''untitled.ts'' \<rparr>"]
  show ?thesis by simp
qed

lemma handleLanguageChange_frame:
  "(handleLanguageChange lang w) \<lparr> currentLanguage := a, showLanguages := b, editorRef := c \<rparr>
     = w \<lparr> currentLanguage := a, showLanguages := b, editorRef := c \<rparr>"
  by (simp add: handleLanguageChange_def Let_def split: option.splits)

lemma handleLanguageChange_text: "editor_text (handleLanguageChange lang w) = editor_text w"
  by (simp add: handleLanguageChange_def editor_text_def setModelLanguage_def Let_def
      split: option.splits)

lemma selector_step_frame:
  "(selector_step w e) \<lparr> currentLanguage := a, showLanguages := b, editorRef := c \<rparr>
     = w \<lparr> currentLanguage := a, showLanguages := b, editorRef := c \<rparr>"
  by (cases e) (simp_all add: handleLanguageChange_frame)

lemma selector_step_text: "editor_text (selector_step w e) = editor_text w"
proof (cases e)
  case ToggleLanguages
  then show ?thesis by (simp add: editor_text_def)
next
  case (SelectLanguage lang)
  then show ?thesis by (simp add: handleLanguageChange_text)
qed

lemma selector_run_frame:
  "(selector_run w evs) \<lparr> currentLanguage := a, showLanguages := b, editorRef := c \<rparr>
     = w \<lparr> currentLanguage := a, showLanguages := b, editorRef := c \<rparr>"
  unfolding selector_run_def
  by (induction evs arbitrary: w) (simp_all add: selector_step_frame)

lemma selector_run_text: "editor_text (selector_run w evs) = editor_text w"
  unfolding selector_run_def
  by (induction evs arbitrary: w) (simp_all add: selector_step_text)

lemma selector_run_content: "content (selector_run w evs) = content w"
proof -
  have "content ((selector_run w evs) \<lparr> currentLanguage := a, showLanguages := b, editorRef := c \<rparr>)
        = content (w \<lparr> currentLanguage := a, showLanguages := b, editorRef := c \<rparr>)" for a b c
    by (simp only: selector_run_frame)
  then show ?thesis by simp
qed

text \<open>
  Claim C7. For every sequence of uses of the language selector (opening or closing the
  list, selecting a language), the \<open>content\<close> prop handed to the editor and the text of
  the editor model stay what they were; of the widget nothing changes but the
  current-language label, the editor model and the selector's own open flag (a selection
  closes the list); and one selection sets the label to the selected language and the
  language of the model (when the editor is mounted with one), the text of the model
  staying as it was.
\<close>

theorem language_change_frame:
  "content (selector_run w evs) = content w
   \<and> editor_text (selector_run w evs) = editor_text w
   \<and> (selector_run w evs) \<lparr> currentLanguage := currentLanguage w,
         showLanguages := showLanguages w, editorRef := editorRef w \<rparr> = w
   \<and> currentLanguage (handleLanguageChange lang w) = lang
   \<and> editor_language (handleLanguageChange lang w) =
       (if monacoRef w then map_option (\<lambda>_. lang) (editor_language w) else editor_language w)"
proof -
  have "currentLanguage (handleLanguageChange lang w) = lang"
    by (simp add: handleLanguageChange_def Let_def split: option.splits)
  moreover have "editor_language (handleLanguageChange lang w) =
       (if monacoRef w then map_option (\<lambda>_. lang) (editor_language w) else editor_language w)"
    by (simp add: handleLanguageChange_def editor_language_def setModelLanguage_def Let_def
        split: option.splits)
  ultimately show ?thesis
    by (simp add: selector_run_content selector_run_text selector_run_frame)
qed

section \<open>Properties of the archival script\<close>

lemmas archive_unfold = archive_user_def attempt_def say_def Let_def

lemma archive_user_invalid:
  "\<not> valid_username u \<Longrightarrow> archive_user env dry i s u = (Exited 1, say ErrInvalidUsername s)"
  by (simp add: archive_user_def)

lemma archive_user_continue_valid:
  "archive_user env dry i s u = (Continue, s') \<Longrightarrow> valid_username u"
proof (rule ccontr)
  assume "\<not> valid_username u"
  then have "archive_user env dry i s u = (Exited 1, say ErrInvalidUsername s)"
    by (rule archive_user_invalid)
  moreover assume "archive_user env dry i s u = (Continue, s')"
  ultimately show False by simp
qed

lemma archive_loop_append:
  "archive_loop env dry i s (pre @ rest) =
     (case archive_loop env dry i s pre of
        (Continue, s') \<Rightarrow> archive_loop env dry (i + length pre) s' rest
      | (Exited n, s') \<Rightarrow> (Exited n, s')
      | (Thrown, s') \<Rightarrow> (Thrown, s'))"
proof (induction pre arbitrary: i s)
  case Nil
  show ?case by simp
next
  case (Cons u us)
  show ?case
  proof (cases "archive_user env dry i s u")
    case (Pair fl s1)
    then show ?thesis
      by (cases fl) (simp_all add: Cons.IH split: prod.splits flow.splits)
  qed
qed

lemma archive_loop_continue_valid:
  "archive_loop env dry i s us = (Continue, s') \<Longrightarrow> list_all valid_username us"
proof (induction us arbitrary: i s)
  case Nil
  show ?case by simp
next
  case (Cons u us)
  obtain fl s1 where r: "archive_user env dry i s u = (fl, s1)"
    by (cases "archive_user env dry i s u")
  with Cons.prems have fl: "fl = Continue"
    by (cases fl) simp_all
  with r Cons.prems have "archive_loop env dry (Suc i) s1 us = (Continue, s')"
    by simp
  then have "list_all valid_username us"
    by (rule Cons.IH)
  moreover from r fl have "valid_username u"
    by (auto dest: archive_user_continue_valid)
  ultimately show ?case by simp
qed

lemma archive_loop_stops_at_invalid:
  assumes "\<not> valid_username bad"
  shows "archive_loop env dry i s (pre @ bad # post) =
     (case archive_loop env dry i s pre of
        (Continue, s') \<Rightarrow> (Exited 1, say ErrInvalidUsername s')
      | (Exited n, s') \<Rightarrow> (Exited n, s')
      | (Thrown, s') \<Rightarrow> (Thrown, s'))"
proof (cases "archive_loop env dry i s pre")
  case (Pair fl s1)
  then show ?thesis
    using assms by (cases fl) (simp_all add: archive_loop_append archive_user_invalid)
qed

lemma archive_loop_not_continue:
  "\<not> list_all valid_username us \<Longrightarrow> fst (archive_loop env dry i s us) \<noteq> Continue"
  by (metis archive_loop_continue_valid prod.collapse)

lemma finally_block_outcome:
  "oc \<noteq> Completed \<Longrightarrow> fst (finally_block env oc s) \<noteq> Completed"
  by (simp add: finally_block_def attempt_def split: bool.splits)

lemma try_block_invalid:
  assumes "\<not> list_all valid_username (drop 2 argv)"
  shows "fst (try_block env argv s) \<noteq> Continue"
proof -
  let ?s2 = "say LogConnected (s\<lparr>db_calls := db_calls s @ [Connect]\<rparr>)"
  obtain fl s3 where r: "archive_loop env (DRY_RUN argv) 0 ?s2 (drop 2 argv) = (fl, s3)"
    by (cases "archive_loop env (DRY_RUN argv) 0 ?s2 (drop 2 argv)")
  with archive_loop_not_continue [OF assms, of env "DRY_RUN argv" 0 ?s2] have "fl \<noteq> Continue"
    by simp
  with r show ?thesis
    by (cases fl) (simp_all add: try_block_def attempt_def Let_def split: bool.splits)
qed

lemma archive_never_completes:
  assumes "\<not> list_all valid_username (drop 2 argv)"
  shows "fst (archiveOldConversations env argv convs) \<noteq> Completed"
proof -
  let ?s0 = "\<lparr> conversations = convs, db_calls = [], console = [] \<rparr>"
  obtain fl s where r: "try_block env argv ?s0 = (fl, s)"
    by (cases "try_block env argv ?s0")
  with try_block_invalid [OF assms, of env ?s0] have "fl \<noteq> Continue"
    by simp
  with r show ?thesis
    by (cases fl) (simp_all add: archiveOldConversations_def finally_block_outcome)
qed

lemma updateMany_Nil: "updateMany [] cs = cs"
  by (simp add: updateMany_def)

lemma archive_user_dry_conversations:
  "conversations (snd (archive_user env True i s u)) = conversations s"
  by (simp add: archive_unfold split: option.splits bool.splits)

lemma archive_user_dry_calls:
  "\<forall>ids. UpdateMany ids \<notin> set (db_calls s) \<Longrightarrow>
   \<forall>ids. UpdateMany ids \<notin> set (db_calls (snd (archive_user env True i s u)))"
  by (simp add: archive_unfold split: option.splits bool.splits)

lemma archive_loop_dry:
  "\<forall>ids. UpdateMany ids \<notin> set (db_calls s) \<Longrightarrow>
   conversations (snd (archive_loop env True i s us)) = conversations s
   \<and> (\<forall>ids. UpdateMany ids \<notin> set (db_calls (snd (archive_loop env True i s us))))"
proof (induction us arbitrary: i s)
  case Nil
  then show ?case by simp
next
  case (Cons u us)
  obtain fl s1 where r: "archive_user env True i s u = (fl, s1)"
    by (cases "archive_user env True i s u")
  from r archive_user_dry_conversations [of env i s u]
  have c: "conversations s1 = conversations s" by simp
  from r archive_user_dry_calls [OF Cons.prems, of env i u]
  have d: "\<forall>ids. UpdateMany ids \<notin> set (db_calls s1)" by simp
  show ?case
  proof (cases fl)
    case Continue
    with r Cons.IH [OF d, of "Suc i"] c show ?thesis by simp
  next
    case (Exited n)
    with r c d show ?thesis by simp
  next
    case Thrown
    with r c d show ?thesis by simp
  qed
qed

lemma finally_block_frame:
  "conversations (snd (finally_block env oc s)) = conversations s
   \<and> set (db_calls (snd (finally_block env oc s))) = insert Disconnect (set (db_calls s))"
  by (simp add: finally_block_def attempt_def say_def split: bool.splits)

lemma try_block_dry:
  assumes "DRY_RUN argv" and "db_calls s = []"
  shows "conversations (snd (try_block env argv s)) = conversations s
   \<and> (\<forall>ids. UpdateMany ids \<notin> set (db_calls (snd (try_block env argv s))))"
proof -
  let ?s2 = "say LogConnected (s\<lparr>db_calls := db_calls s @ [Connect]\<rparr>)"
  have n: "\<forall>ids. UpdateMany ids \<notin> set (db_calls ?s2)"
    using assms(2) by (simp add: say_def)
  obtain fl s3 where r: "archive_loop env True 0 ?s2 (drop 2 argv) = (fl, s3)"
    by (cases "archive_loop env True 0 ?s2 (drop 2 argv)")
  from r archive_loop_dry [OF n, of env 0 "drop 2 argv"]
  have c: "conversations s3 = conversations s" "\<forall>ids. UpdateMany ids \<notin> set (db_calls s3)"
    by (simp_all add: say_def)
  show ?thesis
    using assms r c
    by (cases fl) (simp_all add: try_block_def attempt_def Let_def say_def split: bool.splits)
qed

text \<open>
  Claim C4. For every environment, argument vector and collection of conversations, a
  run in dry-run mode ends with the collection it started with, every field of every
  document included, and makes no \<open>updateMany\<close> call.
\<close>

theorem dry_run_never_mutates:
  "DRY_RUN argv \<longrightarrow>
     conversations (snd (archiveOldConversations env argv convs)) = convs
     \<and> (\<forall>ids. UpdateMany ids \<notin> set (db_calls (snd (archiveOldConversations env argv convs))))"
proof
  assume dry: "DRY_RUN argv"
  let ?s0 = "\<lparr> conversations = convs, db_calls = [], console = [] \<rparr>"
  obtain fl s where r: "try_block env argv ?s0 = (fl, s)"
    by (cases "try_block env argv ?s0")
  from r try_block_dry [OF dry, of ?s0 env]
  have c: "conversations s = convs" "\<forall>ids. UpdateMany ids \<notin> set (db_calls s)"
    by simp_all
  show "conversations (snd (archiveOldConversations env argv convs)) = convs
     \<and> (\<forall>ids. UpdateMany ids \<notin> set (db_calls (snd (archiveOldConversations env argv convs))))"
    using r c
    by (cases fl) (simp_all add: archiveOldConversations_def finally_block_frame say_def)
qed

text \<open>Claim C4, witness: two users with one old conversation each; both selections are
  reported, nothing is written.\<close>

theorem dry_run_never_mutates_witness:
  "DRY_RUN [''node'', ''archive.js'', ''bob'', ''alice'', ''--dry-run'']
   \<and> conversations (snd (archiveOldConversations ex_archive_env
         [''node'', ''archive.js'', ''bob'', ''alice'', ''--dry-run''] ex_collection))
       = ex_collection
   \<and> console (snd (archiveOldConversations ex_archive_env
         [''node'', ''archive.js'', ''bob'', ''alice'', ''--dry-run''] ex_collection))
       = [LogConnected, LogProcessing ''bob'' ''u2'', LogDryRun 1 ''bob'',
          LogProcessing ''alice'' ''u1'', LogDryRun 1 ''alice'', ErrInvalidUsername]"
  using dry_run_never_mutates
    [of "[''node'', ''archive.js'', ''bob'', ''alice'', ''--dry-run'']" ex_archive_env
      ex_collection]
  by (simp add: archiveOldConversations_def try_block_def finally_block_def archive_user_def
      attempt_def say_def Let_def DRY_RUN_def valid_username_def word_char_def findOne_def
      find_old_def is_old_def updateMany_def dateThreshold_def setDate_back_def
      DAYS_THRESHOLD_def msPerDay_def)

lemma updateMany_selected:
  assumes "distinct (map convo_id cs)"
  shows "updateMany (map convo_id (filter P cs)) cs =
         map (\<lambda>c. if P c then c \<lparr> isArchived := Some True \<rparr> else c) cs"
proof -
  from assms have inj: "inj_on convo_id (set cs)"
    by (simp add: distinct_map)
  have "(convo_id c \<in> set (map convo_id (filter P cs))) = P c" if "c \<in> set cs" for c
  proof
    assume "convo_id c \<in> set (map convo_id (filter P cs))"
    then obtain x where x: "x \<in> set cs" "P x" "convo_id x = convo_id c"
      by auto
    with inj that have "x = c"
      by (auto dest: inj_onD)
    with x show "P c" by simp
  next
    assume "P c"
    with that show "convo_id c \<in> set (map convo_id (filter P cs))"
      by auto
  qed
  then show ?thesis
    unfolding updateMany_def by (intro map_cong) auto
qed

lemma archive_user_real_conversations:
  assumes "findOne (users env) name = Some u"
    and "fst (archive_user env False i s name) = Continue"
  shows "conversations (snd (archive_user env False i s name)) =
         updateMany (map convo_id (find_old (user_id u) (dateThreshold (localTZA env) (clock env i))
                                     (conversations s)))
           (conversations s)"
  using assms by (simp add: archive_unfold updateMany_Nil split: bool.splits if_splits)

lemma archive_user_real_calls:
  assumes "findOne (users env) name = Some u"
    and "fst (archive_user env False i s name) = Continue"
  shows "db_calls (snd (archive_user env False i s name)) =
         db_calls s
         @ [FindOneUser name, FindConversations (user_id u) (dateThreshold (localTZA env) (clock env i))]
         @ (if find_old (user_id u) (dateThreshold (localTZA env) (clock env i)) (conversations s) = [] then []
            else [UpdateMany (map convo_id (find_old (user_id u) (dateThreshold (localTZA env) (clock env i))
                                              (conversations s)))])"
  using assms by (simp add: archive_unfold split: bool.splits if_splits)

lemma updateMany_only_flags:
  "list_all2 (\<lambda>c c'. c' = c \<or> c' = c \<lparr> isArchived := Some True \<rparr>) cs (updateMany ids cs)"
  by (simp add: updateMany_def list_all2_map2 list_all2_same)

lemma archive_user_only_flags:
  "list_all2 (\<lambda>c c'. c' = c \<or> c' = c \<lparr> isArchived := Some True \<rparr>)
     (conversations s) (conversations (snd (archive_user env dry i s u)))"
  by (simp add: archive_unfold updateMany_only_flags list_all2_same
      split: option.splits bool.splits)

lemma only_flags_trans:
  assumes "list_all2 (\<lambda>c c'. c' = c \<or> c' = c \<lparr> isArchived := Some True \<rparr>) xs ys"
    and "list_all2 (\<lambda>c c'. c' = c \<or> c' = c \<lparr> isArchived := Some True \<rparr>) ys zs"
  shows "list_all2 (\<lambda>c c'. c' = c \<or> c' = (c :: convo_doc) \<lparr> isArchived := Some True \<rparr>) xs zs"
  using assms(1) assms(2)
  by (rule list_all2_trans [rotated]) auto

lemma archive_loop_only_flags:
  "list_all2 (\<lambda>c c'. c' = c \<or> c' = c \<lparr> isArchived := Some True \<rparr>)
     (conversations s) (conversations (snd (archive_loop env dry i s us)))"
proof (induction us arbitrary: i s)
  case Nil
  show ?case by (simp add: list_all2_same)
next
  case (Cons u us)
  obtain fl s1 where r: "archive_user env dry i s u = (fl, s1)"
    by (cases "archive_user env dry i s u")
  from r archive_user_only_flags [of s env dry i u]
  have a: "list_all2 (\<lambda>c c'. c' = c \<or> c' = c \<lparr> isArchived := Some True \<rparr>)
             (conversations s) (conversations s1)"
    by simp
  show ?case
  proof (cases fl)
    case Continue
    with r only_flags_trans [OF a Cons.IH [of s1 "Suc i"]] show ?thesis by simp
  next
    case (Exited n)
    with r a show ?thesis by simp
  next
    case Thrown
    with r a show ?thesis by simp
  qed
qed

lemma is_old_conditions:
  "is_old userId threshold c =
     (user c = userId
      \<and> (case updatedAt c of None \<Rightarrow> False | Some t \<Rightarrow> t < threshold)
      \<and> isArchived c \<noteq> Some True)"
  by (simp add: is_old_def)

lemma dateThreshold_formula:
  "dateThreshold tza now =
     now + tza now True - 30 * 86400000 - tza (now + tza now True - 30 * 86400000) False"
  by (simp add: dateThreshold_def setDate_back_def DAYS_THRESHOLD_def msPerDay_def Let_def)

text \<open>
  The threshold across a change of the offset: at 2024-03-20 12:00 UTC in a zone that is
  five hours behind UTC until 2024-03-10 07:00 UTC and four hours behind afterwards, the
  threshold is 2024-02-19 13:00 UTC, one hour later than thirty times 86400000
  milliseconds before now.
\<close>

lemma dateThreshold_offset_change:
  "dateThreshold
     (\<lambda>t isUTC. if (if isUTC then t else t + 18000000) < 1710054000000
                 then - 18000000 else - 14400000)
     1710936000000 = 1708347600000"
  by (simp add: dateThreshold_formula)

text \<open>
  Claim C3. In a real run, when the loop body runs through for a username whose user is
  \<open>u\<close>, in a collection whose \<open>_id\<close>s are distinct: the documents the body flags are
  exactly those that belong to \<open>u\<close>, have an \<open>updatedAt\<close> strictly before the threshold
  and are not already archived, every other document being left as it was; the body
  makes one \<open>updateMany\<close> call for all of them (none when there is nothing to flag); and
  whatever the rest of the run does, each of those documents is flagged when the loop
  ends. The threshold is now moved back thirty days by \<open>setDate\<close>: the same local time of
  day thirty calendar days earlier, which is thirty times 86400000 milliseconds before
  now when the local offset from UTC is the same at both ends.
\<close>

theorem real_run_archives_selected:
  assumes "archive_user env False i s name = (Continue, s1)"
    and "findOne (users env) name = Some u"
    and "distinct (map convo_id (conversations s))"
    and "archive_loop env False (Suc i) s1 rest = (fl, s2)"
  shows "conversations s1 =
           map (\<lambda>c. if user c = user_id u
                        \<and> (case updatedAt c of
                              None \<Rightarrow> False
                            | Some t \<Rightarrow> t < dateThreshold (localTZA env) (clock env i))
                        \<and> isArchived c \<noteq> Some True
                     then c \<lparr> isArchived := Some True \<rparr> else c) (conversations s)
         \<and> db_calls s1 =
             db_calls s
             @ [FindOneUser name,
                FindConversations (user_id u) (dateThreshold (localTZA env) (clock env i))]
             @ (if find_old (user_id u) (dateThreshold (localTZA env) (clock env i))
                     (conversations s) = []
                then []
                else [UpdateMany
                        (map convo_id
                           (find_old (user_id u) (dateThreshold (localTZA env) (clock env i))
                              (conversations s)))])
         \<and> length (conversations s2) = length (conversations s)
         \<and> (\<forall>k<length (conversations s).
               user (conversations s ! k) = user_id u
               \<and> (case updatedAt (conversations s ! k) of
                     None \<Rightarrow> False
                   | Some t \<Rightarrow> t < dateThreshold (localTZA env) (clock env i))
               \<and> isArchived (conversations s ! k) \<noteq> Some True \<longrightarrow>
               conversations s2 ! k = (conversations s ! k) \<lparr> isArchived := Some True \<rparr>)
         \<and> dateThreshold (localTZA env) (clock env i) =
             clock env i + localTZA env (clock env i) True - 30 * 86400000
             - localTZA env
                 (clock env i + localTZA env (clock env i) True - 30 * 86400000) False
         \<and> (localTZA env (clock env i + localTZA env (clock env i) True - 30 * 86400000) False
              = localTZA env (clock env i) True \<longrightarrow>
             dateThreshold (localTZA env) (clock env i) = clock env i - 30 * 86400000)"
proof -
  let ?thr = "dateThreshold (localTZA env) (clock env i)"
  let ?P = "is_old (user_id u) ?thr"
  from assms(1) have f: "fst (archive_user env False i s name) = Continue"
    and s1: "snd (archive_user env False i s name) = s1"
    by simp_all
  have step: "conversations s1 =
      map (\<lambda>c. if ?P c then c \<lparr> isArchived := Some True \<rparr> else c) (conversations s)"
    using archive_user_real_conversations [OF assms(2) f] s1
    by (simp add: find_old_def updateMany_selected [OF assms(3)])
  have calls: "db_calls s1 =
             db_calls s
             @ [FindOneUser name, FindConversations (user_id u) ?thr]
             @ (if find_old (user_id u) ?thr (conversations s) = [] then []
                else [UpdateMany (map convo_id (find_old (user_id u) ?thr (conversations s)))])"
    using archive_user_real_calls [OF assms(2) f] s1 by simp
  have later: "list_all2 (\<lambda>c c'. c' = c \<or> c' = c \<lparr> isArchived := Some True \<rparr>)
                 (conversations s1) (conversations s2)"
    using archive_loop_only_flags [of s1 env False "Suc i" rest] assms(4) by simp
  then have len: "length (conversations s2) = length (conversations s)"
    using step by (auto dest: list_all2_lengthD)
  have kept: "conversations s2 ! k = (conversations s ! k) \<lparr> isArchived := Some True \<rparr>"
    if k: "k < length (conversations s)" and p: "?P (conversations s ! k)" for k
  proof -
    from k p step have "conversations s1 ! k = (conversations s ! k) \<lparr> isArchived := Some True \<rparr>"
      by simp
    moreover from k step have "k < length (conversations s1)" by simp
    with later have "conversations s2 ! k = conversations s1 ! k
        \<or> conversations s2 ! k = (conversations s1 ! k) \<lparr> isArchived := Some True \<rparr>"
      by (rule list_all2_nthD)
    ultimately show ?thesis by auto
  qed
  have thr: "?thr =
             clock env i + localTZA env (clock env i) True - 30 * 86400000
             - localTZA env
                 (clock env i + localTZA env (clock env i) True - 30 * 86400000) False"
    by (rule dateThreshold_formula)
  have same: "?thr = clock env i - 30 * 86400000"
    if "localTZA env (clock env i + localTZA env (clock env i) True - 30 * 86400000) False
              = localTZA env (clock env i) True"
    using that by (simp add: dateThreshold_formula)
  from step calls len kept thr same show ?thesis
    unfolding is_old_conditions by blast
qed

text \<open>Claim C3, witness: of three conversations of one user (old, recent, old and already
  archived) the first alone is flagged by that user's step; the next user's old
  conversation is flagged by the next step, and the first stays flagged.\<close>

theorem real_run_archives_selected_witness:
  "fst (archive_user ex_archive_env False 0 (ex_archive_start ex_collection) ''alice'')
     = Continue
   \<and> findOne (users ex_archive_env) ''alice'' = Some ex_alice
   \<and> distinct (map convo_id ex_collection)
   \<and> dateThreshold (localTZA ex_archive_env) (clock ex_archive_env 0) = 408000000
   \<and> conversations
         (snd (archive_user ex_archive_env False 0 (ex_archive_start ex_collection) ''alice''))
       = [ex_convo ''c1'' ''k1'' ''u1'' (Some ''Chat'') (Some True) 1000,
          ex_convo ''c2'' ''k2'' ''u1'' (Some ''Chat'') (Some False) 2999999999,
          ex_convo ''c3'' ''k3'' ''u1'' (Some ''Chat'') (Some True) 1000,
          ex_convo ''c4'' ''k4'' ''u2'' (Some ''Chat'') None 2000]
   \<and> conversations
         (snd (archive_loop ex_archive_env False 1
                 (snd (archive_user ex_archive_env False 0 (ex_archive_start ex_collection)
                         ''alice''))
                 [''bob'']))
       = [ex_convo ''c1'' ''k1'' ''u1'' (Some ''Chat'') (Some True) 1000,
          ex_convo ''c2'' ''k2'' ''u1'' (Some ''Chat'') (Some False) 2999999999,
          ex_convo ''c3'' ''k3'' ''u1'' (Some ''Chat'') (Some True) 1000,
          ex_convo ''c4'' ''k4'' ''u2'' (Some ''Chat'') (Some True) 2000]"
  using real_run_archives_selected
    [of ex_archive_env 0 "ex_archive_start ex_collection" "''alice''"
      "snd (archive_user ex_archive_env False 0 (ex_archive_start ex_collection) ''alice'')"
      ex_alice "[''bob'']"
      "fst (archive_loop ex_archive_env False 1
              (snd (archive_user ex_archive_env False 0 (ex_archive_start ex_collection)
                      ''alice''))
              [''bob''])"
      "snd (archive_loop ex_archive_env False 1
              (snd (archive_user ex_archive_env False 0 (ex_archive_start ex_collection)
                      ''alice''))
              [''bob''])"]
  by (simp add: archiveOldConversations_def try_block_def finally_block_def archive_user_def
      attempt_def say_def Let_def DRY_RUN_def valid_username_def word_char_def findOne_def
      find_old_def is_old_def updateMany_def dateThreshold_def setDate_back_def
      DAYS_THRESHOLD_def msPerDay_def)

lemma archive_run_stops_at_invalid:
  assumes "\<not> valid_username bad" and "drop 2 argv = pre @ bad # post" and "\<not> db_fault env 0"
  shows "archiveOldConversations env argv convs =
     (case archive_loop env (DRY_RUN argv) 0
             (say LogConnected \<lparr> conversations = convs, db_calls = [Connect], console = [] \<rparr>) pre of
        (Continue, s') \<Rightarrow> (ProcessExit 1, say ErrInvalidUsername s')
      | (Exited n, s') \<Rightarrow> (ProcessExit n, s')
      | (Thrown, s') \<Rightarrow> finally_block env Caught (say ErrArchiving s'))"
proof -
  let ?s2 = "say LogConnected \<lparr> conversations = convs, db_calls = [Connect], console = [] \<rparr>"
  have t: "try_block env argv \<lparr> conversations = convs, db_calls = [], console = [] \<rparr> =
      (case archive_loop env (DRY_RUN argv) 0 ?s2 (pre @ bad # post) of
         (Continue, s3) \<Rightarrow> (Continue, say LogCompleted s3)
       | (Exited n, s3) \<Rightarrow> (Exited n, s3)
       | (Thrown, s3) \<Rightarrow> (Thrown, s3))"
    using assms(2) assms(3) by (simp add: try_block_def attempt_def Let_def)
  obtain fl s1 where r: "archive_loop env (DRY_RUN argv) 0 ?s2 pre = (fl, s1)"
    by (cases "archive_loop env (DRY_RUN argv) 0 ?s2 pre")
  show ?thesis
    unfolding archiveOldConversations_def t archive_loop_stops_at_invalid [OF assms(1)] r
    by (cases fl) simp_all
qed

text \<open>
  Claim C2, as stated, fails: the connection is opened before the arguments are read, and
  each username is checked when the loop reaches it. With a valid username before the
  invalid one, the run connects, looks the first user up, archives their old conversation
  and only then exits on the invalid username.
\<close>

theorem invalid_username_counterexample:
  "\<not> valid_username ''bad-name''
   \<and> archiveOldConversations ex_archive_env
       [''node'', ''archive.js'', ''alice'', ''bad-name'']
       [ex_convo ''c1'' ''k1'' ''u1'' (Some ''Chat'') None 1000]
     = (ProcessExit 1,
        \<lparr> conversations = [ex_convo ''c1'' ''k1'' ''u1'' (Some ''Chat'') (Some True) 1000],
          db_calls = [Connect, FindOneUser ''alice'', FindConversations ''u1'' 408000000,
                      UpdateMany [''c1'']],
          console = [LogConnected, LogProcessing ''alice'' ''u1'', LogArchiving 1 ''alice'',
                     LogArchived 1 ''alice'', ErrInvalidUsername] \<rparr>)"
  by (simp add: archiveOldConversations_def try_block_def finally_block_def archive_user_def
      attempt_def say_def Let_def DRY_RUN_def valid_username_def word_char_def findOne_def
      find_old_def is_old_def updateMany_def dateThreshold_def setDate_back_def
      DAYS_THRESHOLD_def msPerDay_def)

text \<open>
  Claim C2, amended. For every argument list in which some username is invalid, the run
  never completes normally, and the loop does what it does on the usernames before that
  one and then, if they all ran through, reports the validation failure and exits with
  code 1: no lookup, selection or update is made for the invalid username or for any
  username after it. When the connection succeeds the whole run ends that way, or
  earlier as the usernames before it decide.
\<close>

theorem invalid_username_stops_run:
  assumes "\<not> valid_username bad" and "drop 2 argv = pre @ bad # post"
  shows "fst (archiveOldConversations env argv convs) \<noteq> Completed
     \<and> archive_loop env dry i s (pre @ bad # post) =
         (case archive_loop env dry i s pre of
            (Continue, s') \<Rightarrow> (Exited 1, say ErrInvalidUsername s')
          | (Exited n, s') \<Rightarrow> (Exited n, s')
          | (Thrown, s') \<Rightarrow> (Thrown, s'))
     \<and> (\<not> db_fault env 0 \<longrightarrow>
          archiveOldConversations env argv convs =
            (case archive_loop env (DRY_RUN argv) 0
                    (say LogConnected
                       \<lparr> conversations = convs, db_calls = [Connect], console = [] \<rparr>) pre of
               (Continue, s') \<Rightarrow> (ProcessExit 1, say ErrInvalidUsername s')
             | (Exited n, s') \<Rightarrow> (ProcessExit n, s')
             | (Thrown, s') \<Rightarrow> finally_block env Caught (say ErrArchiving s')))"
proof -
  from assms have "\<not> list_all valid_username (drop 2 argv)"
    by simp
  then have "fst (archiveOldConversations env argv convs) \<noteq> Completed"
    by (rule archive_never_completes)
  with archive_loop_stops_at_invalid [OF assms(1), of env dry i s pre post]
    archive_run_stops_at_invalid [OF assms, of env convs]
  show ?thesis by blast
qed

text \<open>Claim C2, witness: the user after the invalid username is never looked up.\<close>

theorem invalid_username_stops_run_witness:
  "\<not> valid_username ''bad name''
   \<and> drop 2 [''node'', ''archive.js'', ''alice'', ''bad name'', ''bob'']
       = [''alice''] @ ''bad name'' # [''bob'']
   \<and> fst (archiveOldConversations ex_archive_env
            [''node'', ''archive.js'', ''alice'', ''bad name'', ''bob''] ex_collection)
       \<noteq> Completed
   \<and> archiveOldConversations ex_archive_env
       [''node'', ''archive.js'', ''alice'', ''bad name'', ''bob''] ex_collection
     = (ProcessExit 1,
        \<lparr> conversations =
            [ex_convo ''c1'' ''k1'' ''u1'' (Some ''Chat'') (Some True) 1000,
             ex_convo ''c2'' ''k2'' ''u1'' (Some ''Chat'') (Some False) 2999999999,
             ex_convo ''c3'' ''k3'' ''u1'' (Some ''Chat'') (Some True) 1000,
             ex_convo ''c4'' ''k4'' ''u2'' (Some ''Chat'') None 2000],
          db_calls = [Connect, FindOneUser ''alice'', FindConversations ''u1'' 408000000,
                      UpdateMany [''c1'']],
          console = [LogConnected, LogProcessing ''alice'' ''u1'', LogArchiving 1 ''alice'',
                     LogArchived 1 ''alice'', ErrInvalidUsername] \<rparr>)"
  using invalid_username_stops_run
    [of "''bad name''" "[''node'', ''archive.js'', ''alice'', ''bad name'', ''bob'']"
      "[''alice'']" "[''bob'']" ex_archive_env ex_collection False 0 "ex_archive_start []"]
  by (simp add: archiveOldConversations_def try_block_def finally_block_def archive_user_def
      attempt_def say_def Let_def DRY_RUN_def valid_username_def word_char_def findOne_def
      find_old_def is_old_def updateMany_def dateThreshold_def setDate_back_def
      DAYS_THRESHOLD_def msPerDay_def)

text \<open>
  Claim C8. When \<open>--dry-run\<close> stands among the arguments after the script path, the run
  is in dry-run mode, the flag stays in the list of usernames and is not a valid
  username; so the run never completes normally, and when the loop reaches the flag
  (the usernames before it ran through) it reports the validation failure and exits with
  code 1.
\<close>

theorem dry_run_flag_rejected:
  assumes "drop 2 argv = pre @ ''--dry-run'' # post"
  shows "DRY_RUN argv
     \<and> \<not> valid_username ''--dry-run''
     \<and> fst (archiveOldConversations env argv convs) \<noteq> Completed
     \<and> archive_loop env (DRY_RUN argv) i s (drop 2 argv) =
         (case archive_loop env True i s pre of
            (Continue, s') \<Rightarrow> (Exited 1, say ErrInvalidUsername s')
          | (Exited n, s') \<Rightarrow> (Exited n, s')
          | (Thrown, s') \<Rightarrow> (Thrown, s'))
     \<and> (\<not> db_fault env 0 \<longrightarrow>
          archiveOldConversations env argv convs =
            (case archive_loop env True 0
                    (say LogConnected
                       \<lparr> conversations = convs, db_calls = [Connect], console = [] \<rparr>) pre of
               (Continue, s') \<Rightarrow> (ProcessExit 1, say ErrInvalidUsername s')
             | (Exited n, s') \<Rightarrow> (ProcessExit n, s')
             | (Thrown, s') \<Rightarrow> finally_block env Caught (say ErrArchiving s')))"
proof -
  have bad: "\<not> valid_username ''--dry-run''"
    by (simp add: valid_username_def word_char_def)
  have "''--dry-run'' \<in> set (drop 2 argv)"
    by (simp add: assms)
  then have dry: "DRY_RUN argv"
    unfolding DRY_RUN_def by (rule in_set_dropD)
  from assms bad have "\<not> list_all valid_username (drop 2 argv)"
    by simp
  then have nc: "fst (archiveOldConversations env argv convs) \<noteq> Completed"
    by (rule archive_never_completes)
  have lp: "archive_loop env (DRY_RUN argv) i s (drop 2 argv) =
         (case archive_loop env True i s pre of
            (Continue, s') \<Rightarrow> (Exited 1, say ErrInvalidUsername s')
          | (Exited n, s') \<Rightarrow> (Exited n, s')
          | (Thrown, s') \<Rightarrow> (Thrown, s'))"
    using archive_loop_stops_at_invalid [OF bad, of env True i s pre post] dry assms by simp
  have mn: "archiveOldConversations env argv convs =
            (case archive_loop env True 0
                    (say LogConnected
                       \<lparr> conversations = convs, db_calls = [Connect], console = [] \<rparr>) pre of
               (Continue, s') \<Rightarrow> (ProcessExit 1, say ErrInvalidUsername s')
             | (Exited n, s') \<Rightarrow> (ProcessExit n, s')
             | (Thrown, s') \<Rightarrow> finally_block env Caught (say ErrArchiving s'))"
    if "\<not> db_fault env 0"
    using archive_run_stops_at_invalid [OF bad assms that, of convs] dry by simp
  from bad dry nc lp mn show ?thesis by blast
qed

text \<open>Claim C8, witness: the username before the flag is reported in dry-run mode, the
  flag ends the run, the username after it is never reached.\<close>

theorem dry_run_flag_rejected_witness:
  "drop 2 [''node'', ''archive.js'', ''alice'', ''--dry-run'', ''bob'']
     = [''alice''] @ ''--dry-run'' # [''bob'']
   \<and> DRY_RUN [''node'', ''archive.js'', ''alice'', ''--dry-run'', ''bob'']
   \<and> archiveOldConversations ex_archive_env
       [''node'', ''archive.js'', ''alice'', ''--dry-run'', ''bob''] ex_collection
     = (ProcessExit 1,
        \<lparr> conversations = ex_collection,
          db_calls = [Connect, FindOneUser ''alice'', FindConversations ''u1'' 408000000],
          console = [LogConnected, LogProcessing ''alice'' ''u1'', LogDryRun 1 ''alice'',
                     ErrInvalidUsername] \<rparr>)"
  using dry_run_flag_rejected
    [of "[''node'', ''archive.js'', ''alice'', ''--dry-run'', ''bob'']" "[''alice'']"
      "[''bob'']" ex_archive_env ex_collection 0 "ex_archive_start []"]
  by (simp add: archiveOldConversations_def try_block_def finally_block_def archive_user_def
      attempt_def say_def Let_def DRY_RUN_def valid_username_def word_char_def findOne_def
      find_old_def is_old_def updateMany_def dateThreshold_def setDate_back_def
      DAYS_THRESHOLD_def msPerDay_def)

section \<open>Properties of the export script\<close>

lemma split_slash_plain: "CHR ''/'' \<notin> set p \<Longrightarrow> split_slash p = [p]"
  by (induction p) auto

lemma split_slash_append:
  "CHR ''/'' \<notin> set a \<Longrightarrow> split_slash (a @ CHR ''/'' # b) = a # split_slash b"
  by (induction a) auto

lemma sanitize_title_no_slash: "CHR ''/'' \<notin> set (sanitize_title t)"
  by (auto simp: sanitize_title_def special_chars_def)

lemma export_file_name_plain:
  assumes "CHR ''/'' \<notin> set (template_string (model c))" and "CHR ''/'' \<notin> set (conversationId c)"
  shows "CHR ''/'' \<notin> set (export_file_name (sanitize_title t) c)"
    and "export_file_name (sanitize_title t) c \<noteq> []"
    and "export_file_name (sanitize_title t) c \<noteq> ''.''"
    and "export_file_name (sanitize_title t) c \<noteq> ''..''"
proof -
  show "CHR ''/'' \<notin> set (export_file_name (sanitize_title t) c)"
    using assms sanitize_title_no_slash [of t] by (auto simp: export_file_name_def)
  have "length (export_file_name (sanitize_title t) c) \<ge> 8"
    by (simp add: export_file_name_def)
  then show "export_file_name (sanitize_title t) c \<noteq> []"
    and "export_file_name (sanitize_title t) c \<noteq> ''.''"
    and "export_file_name (sanitize_title t) c \<noteq> ''..''"
    by auto
qed

lemma path_normalize_fixed:
  assumes "p \<noteq> []" and "hd p \<noteq> CHR ''/''" and "last p \<noteq> CHR ''/''"
    and "normalize_segments True [] (split_slash p) = segs"
    and "join_strings ''/'' segs = p"
  shows "path_normalize p = p"
  using assms by (simp add: path_normalize_def Let_def)

lemma path_join_plain:
  assumes "CHR ''/'' \<notin> set n" "n \<noteq> []" "n \<noteq> ''.''" "n \<noteq> ''..''"
    and "CHR ''/'' \<notin> set f" "f \<noteq> []" "f \<noteq> ''.''" "f \<noteq> ''..''"
  shows "path_join [''export'', n, f] = ''export/'' @ n @ ''/'' @ f"
proof -
  define p where "p = ''export/'' @ n @ ''/'' @ f"
  have j: "join_strings ''/'' [''export'', n, f] = p"
    by (simp add: p_def)
  have "split_slash p = ''export'' # split_slash (n @ CHR ''/'' # f)"
    using split_slash_append [of "''export''" "n @ CHR ''/'' # f"] by (simp add: p_def)
  also have "\<dots> = [''export'', n, f]"
    using assms by (simp add: split_slash_append split_slash_plain)
  finally have sp: "split_slash p = [''export'', n, f]" .
  have ns: "normalize_segments True [] (split_slash p) = [''export'', n, f]"
    unfolding sp using assms by simp
  have "last f \<in> set f"
    using assms by simp
  with assms have "last f \<noteq> CHR ''/''"
    by metis
  then have l: "last p \<noteq> CHR ''/''"
    using assms by (simp add: p_def)
  have h: "p \<noteq> []" "hd p \<noteq> CHR ''/''"
    by (simp_all add: p_def)
  have "path_normalize p = p"
    using h l ns j by (rule path_normalize_fixed)
  then show ?thesis
    using assms j by (simp add: path_join_def p_def del: join_strings.simps)
qed

lemma exportPath_plain:
  assumes "CHR ''/'' \<notin> set n" "n \<noteq> []" "n \<noteq> ''.''" "n \<noteq> ''..''"
    and "CHR ''/'' \<notin> set (template_string (model c))" and "CHR ''/'' \<notin> set (conversationId c)"
  shows "exportPath n (sanitize_title t) c = spec_export_path n (sanitize_title t) c"
  using path_join_plain [OF assms(1-4) export_file_name_plain [OF assms(5,6), of t]]
  by (simp add: exportPath_def spec_export_path_def exportDir_def)

lemma export_file_name_not_Nil: "export_file_name t c \<noteq> []"
  by (simp add: export_file_name_def)

lemma path_normalize_empty_segment:
  assumes "f \<noteq> []"
  shows "path_normalize (''export'' @ ''/'' @ [] @ ''/'' @ f) = path_normalize (''export'' @ ''/'' @ f)"
proof -
  define p where "p = ''export'' @ ''/'' @ [] @ ''/'' @ f"
  define q where "q = ''export'' @ ''/'' @ f"
  have "split_slash p = ''export'' # split_slash (CHR ''/'' # f)"
    using split_slash_append [of "''export''" "CHR ''/'' # f"] by (simp add: p_def)
  then have sp: "split_slash p = ''export'' # [] # split_slash f"
    by simp
  have sq: "split_slash q = ''export'' # split_slash f"
    using split_slash_append [of "''export''" f] by (simp add: q_def)
  have ns: "normalize_segments True [] (split_slash p) = normalize_segments True [] (split_slash q)"
    unfolding sp sq by simp
  have ends: "p \<noteq> []" "q \<noteq> []" "hd p \<noteq> CHR ''/''" "hd q \<noteq> CHR ''/''"
    "last p = last q"
    using assms by (simp_all add: p_def q_def)
  have "path_normalize p = path_normalize q"
    using ends ns by (simp add: path_normalize_def Let_def)
  then show ?thesis
    by (simp only: p_def q_def)
qed

lemma exportPath_normal_form:
  "exportPath n t c = path_normalize (spec_export_path n t c)"
proof (cases "n = []")
  case True
  have "exportPath n t c = path_normalize (''export'' @ ''/'' @ export_file_name t c)"
    using True export_file_name_not_Nil [of t c]
    by (simp add: exportPath_def path_join_def exportDir_def)
  also have "\<dots> = path_normalize (''export'' @ ''/'' @ [] @ ''/'' @ export_file_name t c)"
    using path_normalize_empty_segment [OF export_file_name_not_Nil [of t c]] by simp
  also have "\<dots> = path_normalize (spec_export_path n t c)"
    using True by (simp add: spec_export_path_def exportDir_def)
  finally show ?thesis .
next
  case False
  then show ?thesis
    using export_file_name_not_Nil [of t c]
    by (simp add: exportPath_def path_join_def exportDir_def spec_export_path_def)
qed

lemmas export_unfold = export_conversation_def io_attempt_def io_fire_def print_line_def Let_def

lemma export_conversation_files:
  assumes "export_conversation env userId s c = (Continue, s')"
    and "getMessages env (conversationId c) \<noteq> []"
  shows "files s' =
     (exportPath (userName_of (findById (all_users env) userId)) (sanitize_title (the (title c))) c,
      JSON_stringify env (getMessages env (conversationId c))) # files s"
proof -
  from assms(1) have f: "fst (export_conversation env userId s c) = Continue"
    and s': "snd (export_conversation env userId s c) = s'"
    by simp_all
  from f have "files (snd (export_conversation env userId s c)) =
     (exportPath (userName_of (findById (all_users env) userId)) (sanitize_title (the (title c))) c,
      JSON_stringify env (getMessages env (conversationId c))) # files s"
    using assms(2)
    by (simp add: export_unfold split: option.splits bool.splits if_splits)
  with s' show ?thesis by simp
qed

lemma export_conversation_calls:
  "count_list (io_calls (snd (export_conversation env userId s c))) MongooseConnect
     = count_list (io_calls s) MongooseConnect"
  by (simp add: export_unfold split: option.splits bool.splits)

lemma export_conversation_mono:
  "set (files s) \<subseteq> set (files (snd (export_conversation env userId s c)))"
  by (auto simp: export_unfold split: option.splits bool.splits)

lemma export_loop_calls:
  "count_list (io_calls (snd (export_loop env userId s cs))) MongooseConnect
     = count_list (io_calls s) MongooseConnect"
proof (induction cs arbitrary: s)
  case Nil
  show ?case by simp
next
  case (Cons c cs)
  obtain fl s1 where r: "export_conversation env userId s c = (fl, s1)"
    by (cases "export_conversation env userId s c")
  with export_conversation_calls [of env userId s c]
  have "count_list (io_calls s1) MongooseConnect = count_list (io_calls s) MongooseConnect"
    by simp
  with r Cons.IH [of s1] show ?case
    by (cases fl) simp_all
qed

lemma export_loop_mono:
  "set (files s) \<subseteq> set (files (snd (export_loop env userId s cs)))"
proof (induction cs arbitrary: s)
  case Nil
  show ?case by simp
next
  case (Cons c cs)
  obtain fl s1 where r: "export_conversation env userId s c = (fl, s1)"
    by (cases "export_conversation env userId s c")
  with export_conversation_mono [of s env userId c]
  have "set (files s) \<subseteq> set (files s1)"
    by simp
  with r Cons.IH [of s1] show ?case
    by (cases fl) auto
qed

lemma exportUserConversations_calls:
  "count_list (io_calls (exportUserConversations env userId s)) MongooseConnect
     = Suc (count_list (io_calls s) MongooseConnect)"
proof -
  let ?s2 = "s \<lparr> io_calls := io_calls s @ [MongooseConnect, FindUserConversations userId] \<rparr>"
  let ?cs = "filter (\<lambda>c. user c = userId) (all_conversations env)"
  obtain fl s3 where r: "export_loop env userId ?s2 ?cs = (fl, s3)"
    by (cases "export_loop env userId ?s2 ?cs")
  with export_loop_calls [of env userId ?s2 ?cs]
  have "count_list (io_calls s3) MongooseConnect = Suc (count_list (io_calls s) MongooseConnect)"
    by simp
  with r show ?thesis
    by (cases fl)
      (simp_all add: exportUserConversations_def export_user_try_def io_attempt_def io_fire_def
        print_line_def Let_def split: bool.splits)
qed

lemma exportUserConversations_mono:
  "set (files s) \<subseteq> set (files (exportUserConversations env userId s))"
proof -
  let ?s2 = "s \<lparr> io_calls := io_calls s @ [MongooseConnect, FindUserConversations userId] \<rparr>"
  let ?cs = "filter (\<lambda>c. user c = userId) (all_conversations env)"
  obtain fl s3 where r: "export_loop env userId ?s2 ?cs = (fl, s3)"
    by (cases "export_loop env userId ?s2 ?cs")
  with export_loop_mono [of ?s2 env userId ?cs]
  have "set (files s) \<subseteq> set (files s3)"
    by simp
  with r show ?thesis
    by (cases fl)
      (simp_all add: exportUserConversations_def export_user_try_def io_attempt_def io_fire_def
        print_line_def Let_def split: bool.splits)
qed

lemma export_users_loop_calls:
  "count_list (io_calls (export_users_loop env s us)) MongooseConnect
     = count_list (io_calls s) MongooseConnect + length us"
  by (induction us arbitrary: s) (simp_all add: exportUserConversations_calls)

lemma export_users_loop_mono:
  "set (files s) \<subseteq> set (files (export_users_loop env s us))"
proof (induction us arbitrary: s)
  case Nil
  show ?case by simp
next
  case (Cons u us)
  from exportUserConversations_mono [of s env "user_id u"] Cons.IH [of "exportUserConversations env (user_id u) s"]
  show ?case by auto
qed

lemma export_conversation_flow:
  "fst (export_conversation env userId s c) =
     (if title c = None
         \<or> io_fault env (length (io_calls s))
         \<or> (getMessages env (conversationId c) \<noteq> []
            \<and> (io_fault env (Suc (length (io_calls s)))
               \<or> io_fault env (Suc (Suc (length (io_calls s))))
               \<or> io_fault env (Suc (Suc (Suc (length (io_calls s)))))))
      then Thrown else Continue)"
  by (simp add: export_unfold split: option.splits bool.splits)

lemma export_conversation_grows:
  "length (io_calls s) \<le> length (io_calls (snd (export_conversation env userId s c)))"
  by (simp add: export_unfold split: option.splits bool.splits)

lemma export_loop_append:
  "export_loop env userId s (pre @ rest) =
     (case export_loop env userId s pre of
        (Continue, s1) \<Rightarrow> export_loop env userId s1 rest
      | (Exited n, s1) \<Rightarrow> (Exited n, s1)
      | (Thrown, s1) \<Rightarrow> (Thrown, s1))"
proof (induction pre arbitrary: s)
  case Nil
  show ?case by simp
next
  case (Cons c cs)
  show ?case
  proof (cases "export_conversation env userId s c")
    case (Pair fl s1)
    then show ?thesis
      by (cases fl) (simp_all add: Cons.IH)
  qed
qed

lemma export_loop_stops:
  assumes "export_loop env userId s pre = (Continue, s1)"
    and "fst (export_conversation env userId s1 c) = Thrown"
  shows "export_loop env userId s (pre @ c # post) = export_conversation env userId s1 c"
proof (cases "export_conversation env userId s1 c")
  case (Pair fl s2)
  with assms(2) have "fl = Thrown" by simp
  with Pair assms(1) show ?thesis
    by (simp add: export_loop_append)
qed

lemma export_user_try_flow:
  assumes "io_fault env (length (io_calls s)) \<or> io_fault env (Suc (length (io_calls s)))"
  shows "fst (export_user_try env userId s) = Thrown"
  using assms by (auto simp: export_user_try_def io_attempt_def split: bool.splits)

lemma exportUserConversations_report:
  "exportUserConversations env userId s =
     io_fire MongooseDisconnect
       (if fst (export_user_try env userId s) = Thrown
        then print_line ErrExporting (snd (export_user_try env userId s))
        else snd (export_user_try env userId s))"
proof (cases "export_user_try env userId s")
  case (Pair fl s1)
  then show ?thesis
    by (cases fl) (simp_all add: exportUserConversations_def)
qed

lemma export_users_loop_append:
  "export_users_loop env s (pre @ us) = export_users_loop env (export_users_loop env s pre) us"
  by (induction pre arbitrary: s) simp_all

lemma exportAllUsers_cases:
  "exportAllUsers env s =
     (if io_fault env (length (io_calls s)) then
        s \<lparr> io_calls := io_calls s @ [MongooseConnect, MongooseDisconnect],
            out := out s @ [ErrFetching] \<rparr>
      else if io_fault env (Suc (length (io_calls s))) then
        s \<lparr> io_calls := io_calls s @ [MongooseConnect, FindUsers, MongooseDisconnect],
            out := out s @ [ErrFetching] \<rparr>
      else
        io_fire MongooseDisconnect
          (export_users_loop env (s \<lparr> io_calls := io_calls s @ [MongooseConnect, FindUsers] \<rparr>)
             (all_users env)))"
  by (simp add: exportAllUsers_def io_attempt_def io_fire_def print_line_def)

lemma export_conversation_no_fault:
  assumes "\<forall>k\<ge>length (io_calls s). \<not> io_fault env k" and "title c \<noteq> None"
  shows "fst (export_conversation env userId s c) = Continue"
    and "getMessages env (conversationId c) \<noteq> [] \<Longrightarrow>
         (exportPath (userName_of (findById (all_users env) userId))
            (sanitize_title (the (title c))) c,
          JSON_stringify env (getMessages env (conversationId c)))
         \<in> set (files (snd (export_conversation env userId s c)))"
  using assms by (auto simp: export_unfold)

lemma export_loop_no_fault:
  assumes "\<forall>k\<ge>length (io_calls s). \<not> io_fault env k" and "\<forall>d\<in>set cs. title d \<noteq> None"
  shows "fst (export_loop env userId s cs) = Continue
     \<and> (\<forall>c\<in>set cs. getMessages env (conversationId c) \<noteq> [] \<longrightarrow>
          (exportPath (userName_of (findById (all_users env) userId))
             (sanitize_title (the (title c))) c,
           JSON_stringify env (getMessages env (conversationId c)))
          \<in> set (files (snd (export_loop env userId s cs))))"
  using assms
proof (induction cs arbitrary: s)
  case Nil
  show ?case by simp
next
  case (Cons c cs)
  obtain fl s1 where r: "export_conversation env userId s c = (fl, s1)"
    by (cases "export_conversation env userId s c")
  from Cons.prems have nf: "\<forall>k\<ge>length (io_calls s). \<not> io_fault env k"
    and t: "title c \<noteq> None" and ts: "\<forall>d\<in>set cs. title d \<noteq> None"
    by simp_all
  from export_conversation_no_fault(1) [OF nf t, of userId] r
  have fl: "fl = Continue" by simp
  from export_conversation_grows [of s env userId c] r
  have "length (io_calls s) \<le> length (io_calls s1)" by simp
  with nf have nf1: "\<forall>k\<ge>length (io_calls s1). \<not> io_fault env k"
    by auto
  have hd_in: "(exportPath (userName_of (findById (all_users env) userId))
             (sanitize_title (the (title c))) c,
           JSON_stringify env (getMessages env (conversationId c)))
          \<in> set (files (snd (export_loop env userId s1 cs)))"
    if "getMessages env (conversationId c) \<noteq> []"
    using export_conversation_no_fault(2) [OF nf t that, of userId] r
      export_loop_mono [of s1 env userId cs]
    by auto
  from Cons.IH [OF nf1 ts] hd_in r fl show ?case
    by simp
qed

lemma in_set_not_Nil: "x \<in> set xs \<Longrightarrow> xs \<noteq> []"
  by auto

lemma exportUserConversations_no_fault:
  assumes "\<forall>k\<ge>length (io_calls s). \<not> io_fault env k"
    and "\<forall>d\<in>set (all_conversations env). user d = userId \<longrightarrow> title d \<noteq> None"
    and "c \<in> set (all_conversations env)" and "user c = userId"
    and "getMessages env (conversationId c) \<noteq> []"
  shows "(exportPath (userName_of (findById (all_users env) userId))
            (sanitize_title (the (title c))) c,
          JSON_stringify env (getMessages env (conversationId c)))
         \<in> set (files (exportUserConversations env userId s))"
proof -
  let ?s2 = "s \<lparr> io_calls := io_calls s @ [MongooseConnect, FindUserConversations userId] \<rparr>"
  let ?cs = "filter (\<lambda>c. user c = userId) (all_conversations env)"
  from assms(1) have nf0: "\<not> io_fault env (length (io_calls s))"
    and nf1: "\<not> io_fault env (Suc (length (io_calls s)))"
    and nf2: "\<forall>k\<ge>length (io_calls ?s2). \<not> io_fault env k"
    by simp_all
  from assms(2) have ts: "\<forall>d\<in>set ?cs. title d \<noteq> None"
    by simp
  from assms(3,4) have c: "c \<in> set ?cs"
    by simp
  then have ne: "?cs \<noteq> []"
    by (rule in_set_not_Nil)
  obtain fl s3 where r: "export_loop env userId ?s2 ?cs = (fl, s3)"
    by (cases "export_loop env userId ?s2 ?cs")
  from export_loop_no_fault [OF nf2 ts, of userId] r c assms(5)
  have "fl = Continue"
    and "(exportPath (userName_of (findById (all_users env) userId))
            (sanitize_title (the (title c))) c,
          JSON_stringify env (getMessages env (conversationId c))) \<in> set (files s3)"
    by auto
  with r ne nf0 nf1 show ?thesis
    by (simp add: exportUserConversations_def export_user_try_def io_attempt_def io_fire_def
        Let_def)
qed

lemma export_users_loop_isolated:
  assumes "\<forall>k\<ge>length (io_calls (export_users_loop env s pre)). \<not> io_fault env k"
    and "\<forall>d\<in>set (all_conversations env). user d = user_id u \<longrightarrow> title d \<noteq> None"
    and "c \<in> set (all_conversations env)" and "user c = user_id u"
    and "getMessages env (conversationId c) \<noteq> []"
  shows "(exportPath (userName_of (findById (all_users env) (user_id u)))
            (sanitize_title (the (title c))) c,
          JSON_stringify env (getMessages env (conversationId c)))
         \<in> set (files (export_users_loop env s (pre @ u # post)))"
proof -
  let ?s1 = "export_users_loop env s pre"
  have "export_users_loop env s (pre @ u # post) =
        export_users_loop env (exportUserConversations env (user_id u) ?s1) post"
    by (simp add: export_users_loop_append)
  with exportUserConversations_no_fault [OF assms(1-5)]
    export_users_loop_mono [of "exportUserConversations env (user_id u) ?s1" env post]
  show ?thesis by auto
qed

text \<open>
  Claim C5, as stated, fails: \<open>exportUserConversations\<close> catches what its \<open>try\<close> block
  throws. Here the first user's only conversation has no title, so \<open>title.replace\<close> throws;
  the error is reported, and the second user is processed and their conversation written.
\<close>

theorem export_next_user_counterexample:
  "export_script
     (ex_export_env [ex_alice, ex_bob]
        [ex_convo ''c1'' ''k1'' ''u1'' None None 1000,
         ex_convo ''c4'' ''k4'' ''u2'' (Some ''Chat'') None 2000] (\<lambda>_. False))
   = \<lparr> io_calls = [MongooseConnect, FindUsers,
                    MongooseConnect, FindUserConversations ''u1'', MongooseDisconnect,
                    MongooseConnect, FindUserConversations ''u2'', GetMessages ''k4'',
                    FindUserById ''u2'', MkdirSync ''export/bob'',
                    WriteFileSync ''export/bob/Chat--gpt-4-k4.json'', MongooseDisconnect,
                    MongooseDisconnect],
       files = [(''export/bob/Chat--gpt-4-k4.json'', ''k4-m1k4-m2'')],
       dirs = [''export/bob''],
       out = [ErrExporting, LogExported (Some ''Chat'') ''export/bob/Chat--gpt-4-k4.json'',
              LogFinished] \<rparr>"
  by (simp add: export_script_def exportAllUsers_def exportUserConversations_def
      export_user_try_def export_conversation_def io_attempt_def io_fire_def print_line_def
      Let_def exportPath_def spec_export_path_def export_file_name_def exportDir_def
      path_join_def path_normalize_def path_dirname_def sanitize_title_def special_chars_def
      userName_of_def findById_def)

text \<open>
  Claim C5, amended. An error while one user's conversations are exported ends the work
  on that user only, and only a failure of the connection or the listing of
  \<open>exportAllUsers\<close> itself ends the run. In the order of the conjuncts: the loop over the
  users enters \<open>exportUserConversations\<close> (which starts by connecting) once for each user,
  whatever happened before; after any users it goes on with the next one from the state
  they left; \<open>exportUserConversations\<close> returns normally, having reported the error when
  its \<open>try\<close> block threw; the \<open>try\<close> block throws when its own connection or query fails;
  the body for one conversation throws exactly when the title is missing or one of the
  calls it makes fails; a conversation whose body throws ends the loop over that user's
  conversations, the later ones being left out; \<open>exportAllUsers\<close> reports and processes
  no user when its connection or its listing fails, and runs the loop over all users
  otherwise; and when no call fails from the start of a user's turn on and that user's
  conversations all have titles, each of them that has messages is written, whatever
  failed for the users before.
\<close>

theorem export_errors_stay_with_their_user:
  "count_list (io_calls (export_users_loop env s us)) MongooseConnect
     = count_list (io_calls s) MongooseConnect + length us
   \<and> export_users_loop env s (pre @ u # post) =
       export_users_loop env
         (exportUserConversations env (user_id u) (export_users_loop env s pre)) post
   \<and> exportUserConversations env userId s =
       io_fire MongooseDisconnect
         (if fst (export_user_try env userId s) = Thrown
          then print_line ErrExporting (snd (export_user_try env userId s))
          else snd (export_user_try env userId s))
   \<and> (io_fault env (length (io_calls t)) \<or> io_fault env (Suc (length (io_calls t))) \<longrightarrow>
        fst (export_user_try env userId t) = Thrown)
   \<and> fst (export_conversation env userId s c) =
       (if title c = None
           \<or> io_fault env (length (io_calls s))
           \<or> (getMessages env (conversationId c) \<noteq> []
              \<and> (io_fault env (Suc (length (io_calls s)))
                 \<or> io_fault env (Suc (Suc (length (io_calls s))))
                 \<or> io_fault env (Suc (Suc (Suc (length (io_calls s)))))))
        then Thrown else Continue)
   \<and> (export_loop env userId s cs = (Continue, s1)
       \<and> fst (export_conversation env userId s1 c) = Thrown \<longrightarrow>
        export_loop env userId s (cs @ c # cs') = export_conversation env userId s1 c)
   \<and> exportAllUsers env s =
       (if io_fault env (length (io_calls s)) then
          s \<lparr> io_calls := io_calls s @ [MongooseConnect, MongooseDisconnect],
              out := out s @ [ErrFetching] \<rparr>
        else if io_fault env (Suc (length (io_calls s))) then
          s \<lparr> io_calls := io_calls s @ [MongooseConnect, FindUsers, MongooseDisconnect],
              out := out s @ [ErrFetching] \<rparr>
        else
          io_fire MongooseDisconnect
            (export_users_loop env
               (s \<lparr> io_calls := io_calls s @ [MongooseConnect, FindUsers] \<rparr>) (all_users env)))
   \<and> ((\<forall>k\<ge>length (io_calls (export_users_loop env s pre)). \<not> io_fault env k)
       \<and> d \<in> set (all_conversations env) \<and> user d = user_id u
       \<and> (\<forall>e\<in>set (all_conversations env). user e = user_id u \<longrightarrow> title e \<noteq> None)
       \<and> getMessages env (conversationId d) \<noteq> [] \<longrightarrow>
         (exportPath (userName_of (findById (all_users env) (user_id u)))
            (sanitize_title (the (title d))) d,
          JSON_stringify env (getMessages env (conversationId d)))
         \<in> set (files (export_users_loop env s (pre @ u # post))))"
proof -
  have a: "count_list (io_calls (export_users_loop env s us)) MongooseConnect
     = count_list (io_calls s) MongooseConnect + length us"
    by (rule export_users_loop_calls)
  have b: "export_users_loop env s (pre @ u # post) =
       export_users_loop env
         (exportUserConversations env (user_id u) (export_users_loop env s pre)) post"
    by (simp add: export_users_loop_append)
  have e: "export_loop env userId s (cs @ c # cs') = export_conversation env userId s1 c"
    if "export_loop env userId s cs = (Continue, s1)
       \<and> fst (export_conversation env userId s1 c) = Thrown"
    using that by (intro export_loop_stops) simp_all
  have g: "(exportPath (userName_of (findById (all_users env) (user_id u)))
            (sanitize_title (the (title d))) d,
          JSON_stringify env (getMessages env (conversationId d)))
         \<in> set (files (export_users_loop env s (pre @ u # post)))"
    if "(\<forall>k\<ge>length (io_calls (export_users_loop env s pre)). \<not> io_fault env k)
       \<and> d \<in> set (all_conversations env) \<and> user d = user_id u
       \<and> (\<forall>e\<in>set (all_conversations env). user e = user_id u \<longrightarrow> title e \<noteq> None)
       \<and> getMessages env (conversationId d) \<noteq> []"
    using that by (intro export_users_loop_isolated) simp_all
  from a b exportUserConversations_report [of env userId s]
    export_user_try_flow [of env t userId] export_conversation_flow [of env userId s c]
    e exportAllUsers_cases [of env s] g
  show ?thesis by (intro conjI impI) assumption+
qed

text \<open>Claim C5, witness: the sixth call fails. In the first user's turn that is the user
  lookup for the first conversation, so the second conversation is left out and the
  error reported, and the second user's conversation is written; a direct call of the
  loop body at that state fails at the write; and a failing listing ends the run.\<close>

theorem export_errors_stay_with_their_user_witness:
  "fst (export_user_try
          (ex_export_env [ex_alice, ex_bob]
             [ex_convo ''c1'' ''k1'' ''u1'' (Some ''Plan'') None 1000,
              ex_convo ''c2'' ''k2'' ''u1'' (Some ''Notes'') None 1000,
              ex_convo ''c4'' ''k4'' ''u2'' (Some ''Chat'') None 2000] (\<lambda>k. k = 5))
          ''u1''
          \<lparr> io_calls = [MongooseConnect, FindUsers, MongooseConnect,
                         FindUserConversations ''u0'', MongooseDisconnect],
            files = [], dirs = [], out = [] \<rparr>) = Thrown
   \<and> export_loop
         (ex_export_env [ex_alice, ex_bob]
            [ex_convo ''c1'' ''k1'' ''u1'' (Some ''Plan'') None 1000,
             ex_convo ''c2'' ''k2'' ''u1'' (Some ''Notes'') None 1000,
             ex_convo ''c4'' ''k4'' ''u2'' (Some ''Chat'') None 2000] (\<lambda>k. k = 5))
         ''u1'' \<lparr> io_calls = [MongooseConnect, FindUsers], files = [], dirs = [], out = [] \<rparr>
         [ex_convo ''c1'' ''k1'' ''u1'' (Some ''Plan'') None 1000,
          ex_convo ''c2'' ''k2'' ''u1'' (Some ''Notes'') None 1000]
       = (Thrown,
          \<lparr> io_calls = [MongooseConnect, FindUsers, GetMessages ''k1'', FindUserById ''u1'',
                         MkdirSync ''export/alice'',
                         WriteFileSync ''export/alice/Plan--gpt-4-k1.json''],
            files = [], dirs = [''export/alice''], out = [] \<rparr>)
   \<and> export_users_loop
         (ex_export_env [ex_alice, ex_bob]
            [ex_convo ''c1'' ''k1'' ''u1'' (Some ''Plan'') None 1000,
             ex_convo ''c2'' ''k2'' ''u1'' (Some ''Notes'') None 1000,
             ex_convo ''c4'' ''k4'' ''u2'' (Some ''Chat'') None 2000] (\<lambda>k. k = 5))
         \<lparr> io_calls = [MongooseConnect, FindUsers], files = [], dirs = [], out = [] \<rparr>
         [ex_alice, ex_bob]
       = \<lparr> io_calls = [MongooseConnect, FindUsers,
                        MongooseConnect, FindUserConversations ''u1'', GetMessages ''k1'',
                        FindUserById ''u1'', MongooseDisconnect,
                        MongooseConnect, FindUserConversations ''u2'', GetMessages ''k4'',
                        FindUserById ''u2'', MkdirSync ''export/bob'',
                        WriteFileSync ''export/bob/Chat--gpt-4-k4.json'', MongooseDisconnect],
           files = [(''export/bob/Chat--gpt-4-k4.json'', ''k4-m1k4-m2'')],
           dirs = [''export/bob''],
           out = [ErrExporting,
                  LogExported (Some ''Chat'') ''export/bob/Chat--gpt-4-k4.json''] \<rparr>
   \<and> exportAllUsers
         (ex_export_env [ex_alice, ex_bob]
            [ex_convo ''c1'' ''k1'' ''u1'' (Some ''Plan'') None 1000,
             ex_convo ''c2'' ''k2'' ''u1'' (Some ''Notes'') None 1000,
             ex_convo ''c4'' ''k4'' ''u2'' (Some ''Chat'') None 2000] (\<lambda>k. k = 1))
         ex_export_start
       = \<lparr> io_calls = [MongooseConnect, FindUsers, MongooseDisconnect], files = [], dirs = [],
           out = [ErrFetching] \<rparr>"
  using export_errors_stay_with_their_user
    [where env = "ex_export_env [ex_alice, ex_bob]
                    [ex_convo ''c1'' ''k1'' ''u1'' (Some ''Plan'') None 1000,
                     ex_convo ''c2'' ''k2'' ''u1'' (Some ''Notes'') None 1000,
                     ex_convo ''c4'' ''k4'' ''u2'' (Some ''Chat'') None 2000] (\<lambda>k. k = 5)"
       and s = "\<lparr> io_calls = [MongooseConnect, FindUsers], files = [], dirs = [], out = [] \<rparr>"
       and us = "[ex_alice, ex_bob]" and pre = "[ex_alice]" and u = ex_bob and post = "[]"
       and userId = "''u1''"
       and t = "\<lparr> io_calls = [MongooseConnect, FindUsers, MongooseConnect,
                              FindUserConversations ''u0'', MongooseDisconnect],
                  files = [], dirs = [], out = [] \<rparr>"
       and c = "ex_convo ''c1'' ''k1'' ''u1'' (Some ''Plan'') None 1000"
       and cs = "[]"
       and ?s1.0 = "\<lparr> io_calls = [MongooseConnect, FindUsers], files = [], dirs = [], out = [] \<rparr>"
       and cs' = "[ex_convo ''c2'' ''k2'' ''u1'' (Some ''Notes'') None 1000]"
       and d = "ex_convo ''c4'' ''k4'' ''u2'' (Some ''Chat'') None 2000"]
    export_errors_stay_with_their_user
    [where env = "ex_export_env [ex_alice, ex_bob]
                    [ex_convo ''c1'' ''k1'' ''u1'' (Some ''Plan'') None 1000,
                     ex_convo ''c2'' ''k2'' ''u1'' (Some ''Notes'') None 1000,
                     ex_convo ''c4'' ''k4'' ''u2'' (Some ''Chat'') None 2000] (\<lambda>k. k = 1)"
       and s = ex_export_start]
  by (simp add: export_script_def exportAllUsers_def exportUserConversations_def
      export_user_try_def export_conversation_def io_attempt_def io_fire_def print_line_def
      Let_def exportPath_def spec_export_path_def export_file_name_def exportDir_def
      path_join_def path_normalize_def path_dirname_def sanitize_title_def special_chars_def
      userName_of_def findById_def)

text \<open>
  Claim C6. For every conversation the loop body exports, the file written has the
  content \<open>JSON.stringify(messages, null, 2)\<close> and the path
  \<open>path.join(exportDir, userName, file)\<close>, which is the normal form of
  \<open><export-root>/<username>/<file>\<close> for every username, title and conversation (the
  same location), and is that very text whenever the username is not empty, \<open>.\<close> or
  \<open>..\<close> and has no slash, and neither the model nor the conversation id has a slash.
  For a conversation on the model \<open>m\<close> the file is the sanitized title, \<open>--\<close>, \<open>m\<close>, \<open>-\<close>,
  the conversation id and \<open>.json\<close>. The sanitized title is the title with each of the
  ten characters replaced by a hyphen and every other character kept. The username is
  the placeholder \<open>unknown_user\<close> when the user is not found or has no username.
\<close>

theorem export_path_and_content:
  "(export_conversation env userId s c = (Continue, s')
    \<and> getMessages env (conversationId c) \<noteq> [] \<longrightarrow>
      files s' =
        (exportPath (userName_of (findById (all_users env) userId))
           (sanitize_title (the (title c))) c,
         JSON_stringify env (getMessages env (conversationId c))) # files s)
   \<and> exportPath n t c = path_normalize (spec_export_path n t c)
   \<and> (CHR ''/'' \<notin> set n \<and> n \<noteq> [] \<and> n \<noteq> ''.'' \<and> n \<noteq> ''..''
       \<and> CHR ''/'' \<notin> set (template_string (model c))
       \<and> CHR ''/'' \<notin> set (conversationId c) \<longrightarrow>
         exportPath n (sanitize_title t) c = spec_export_path n (sanitize_title t) c)
   \<and> (model c = FieldText m \<longrightarrow>
         spec_export_path n t c =
           ''export/'' @ n @ ''/'' @ t @ ''--'' @ m @ ''-'' @ conversationId c @ ''.json'')
   \<and> length (sanitize_title t) = length t
   \<and> (\<forall>k<length t.
         sanitize_title t ! k =
           (if t ! k \<in> {CHR ''/'', CHR 0x5C, CHR ''?'', CHR ''%'', CHR ''*'', CHR '':'', CHR ''|'',
                         CHR 0x22, CHR ''<'', CHR ''>''}
            then CHR ''-'' else t ! k))
   \<and> userName_of None = ''unknown_user''
   \<and> userName_of (Some \<lparr> user_id = i, username = None \<rparr>) = ''unknown_user''
   \<and> userName_of (Some \<lparr> user_id = i, username = Some n \<rparr>) = n"
proof -
  have a: "files s' =
        (exportPath (userName_of (findById (all_users env) userId))
           (sanitize_title (the (title c))) c,
         JSON_stringify env (getMessages env (conversationId c))) # files s"
    if "export_conversation env userId s c = (Continue, s')
        \<and> getMessages env (conversationId c) \<noteq> []"
    using that by (intro export_conversation_files) simp_all
  have b: "exportPath n (sanitize_title t) c = spec_export_path n (sanitize_title t) c"
    if "CHR ''/'' \<notin> set n \<and> n \<noteq> [] \<and> n \<noteq> ''.'' \<and> n \<noteq> ''..''
       \<and> CHR ''/'' \<notin> set (template_string (model c))
       \<and> CHR ''/'' \<notin> set (conversationId c)"
    using that by (intro exportPath_plain) simp_all
  have b': "spec_export_path n t c =
           ''export/'' @ n @ ''/'' @ t @ ''--'' @ m @ ''-'' @ conversationId c @ ''.json''"
    if "model c = FieldText m"
    using that by (simp add: spec_export_path_def export_file_name_def exportDir_def)
  have c: "length (sanitize_title t) = length t"
    by (simp add: sanitize_title_def)
  have d: "\<forall>k<length t.
         sanitize_title t ! k =
           (if t ! k \<in> {CHR ''/'', CHR 0x5C, CHR ''?'', CHR ''%'', CHR ''*'', CHR '':'', CHR ''|'',
                         CHR 0x22, CHR ''<'', CHR ''>''}
            then CHR ''-'' else t ! k)"
    by (simp add: sanitize_title_def special_chars_def)
  have e: "userName_of None = ''unknown_user''"
    "userName_of (Some \<lparr> user_id = i, username = None \<rparr>) = ''unknown_user''"
    "userName_of (Some \<lparr> user_id = i, username = Some n \<rparr>) = n"
    by (simp_all add: userName_of_def)
  from a exportPath_normal_form [of n t c] b b' c d e show ?thesis
    by (intro conjI impI) assumption+
qed

text \<open>Claim C6, witness: the conversation titled \<open>Q&A: 50%/100%?\<close> of the user
  \<open>alice\<close>; and a conversation of a user whose username is the empty string, whose
  path is the normal form of \<open>export//Chat--gpt-4-k5.json\<close>.\<close>

theorem export_path_and_content_witness:
  "fst (export_conversation
          (ex_export_env [ex_alice]
             [ex_convo ''c1'' ''k1'' ''u1'' (Some ''Q&A: 50%/100%?'') None 1000] (\<lambda>_. False))
          ''u1'' ex_export_start
          (ex_convo ''c1'' ''k1'' ''u1'' (Some ''Q&A: 50%/100%?'') None 1000)) = Continue
   \<and> files (snd (export_conversation
          (ex_export_env [ex_alice]
             [ex_convo ''c1'' ''k1'' ''u1'' (Some ''Q&A: 50%/100%?'') None 1000] (\<lambda>_. False))
          ''u1'' ex_export_start
          (ex_convo ''c1'' ''k1'' ''u1'' (Some ''Q&A: 50%/100%?'') None 1000)))
       = [(''export/alice/Q&A- 50--100----gpt-4-k1.json'', ''k1-m1k1-m2'')]
   \<and> spec_export_path ''alice'' (sanitize_title ''Q&A: 50%/100%?'')
         (ex_convo ''c1'' ''k1'' ''u1'' (Some ''Q&A: 50%/100%?'') None 1000)
       = ''export/alice/Q&A- 50--100----gpt-4-k1.json''
   \<and> sanitize_title ''Q&A: 50%/100%?'' = ''Q&A- 50--100--''
   \<and> exportPath [] ''Chat'' (ex_convo ''c5'' ''k5'' ''u3'' (Some ''Chat'') None 1000)
       = ''export/Chat--gpt-4-k5.json''
   \<and> path_normalize
         (spec_export_path [] ''Chat'' (ex_convo ''c5'' ''k5'' ''u3'' (Some ''Chat'') None 1000))
       = ''export/Chat--gpt-4-k5.json''"
  using export_path_and_content
    [where env = "ex_export_env [ex_alice]
                    [ex_convo ''c1'' ''k1'' ''u1'' (Some ''Q&A: 50%/100%?'') None 1000]
                    (\<lambda>_. False)"
       and userId = "''u1''" and s = ex_export_start
       and c = "ex_convo ''c1'' ''k1'' ''u1'' (Some ''Q&A: 50%/100%?'') None 1000"
       and s' = "snd (export_conversation
                   (ex_export_env [ex_alice]
                      [ex_convo ''c1'' ''k1'' ''u1'' (Some ''Q&A: 50%/100%?'') None 1000]
                      (\<lambda>_. False))
                   ''u1'' ex_export_start
                   (ex_convo ''c1'' ''k1'' ''u1'' (Some ''Q&A: 50%/100%?'') None 1000))"
       and n = "''alice''" and t = "''Q&A: 50%/100%?''" and m = "''gpt-4''" and i = "''u1''"]
  by (simp add: export_script_def exportAllUsers_def exportUserConversations_def
      export_user_try_def export_conversation_def io_attempt_def io_fire_def print_line_def
      Let_def exportPath_def spec_export_path_def export_file_name_def exportDir_def
      path_join_def path_normalize_def path_dirname_def sanitize_title_def special_chars_def
      userName_of_def findById_def)

end
